theory Spec2Isabelle
  imports Main "HOL-Library.Word" "HOL-Library.Sublist" "HOL-Library.AList"
begin

section \<open>The font downloader and the path validation of evergreen-press\<close>

text \<open>
  A shallow embedding of the font downloader (the Netlify build plugin with
  \<^verbatim>\<open>generateFontConfigHash\<close>, \<^verbatim>\<open>retryWithBackoff\<close>, \<^verbatim>\<open>downloadFont\<close>, the cache state
  store, \<^verbatim>\<open>downloadFontsWithCache\<close> and the \<^verbatim>\<open>onPreBuild\<close> hook), of the Astro integration
  \<^verbatim>\<open>fontDownloader\<close> and of \<^verbatim>\<open>sanitizePath\<close> from the validation utilities.

  Everything the JavaScript does beyond returning a value is explicit: the network is an
  oracle of the environment, the two directories the plugin owns are part of the world,
  a thrown exception is the \<open>Inl\<close> of a sum, and the requests sent, the delays awaited and
  the warnings printed are logs of the world.
\<close>

subsection \<open>JSON values and \<^verbatim>\<open>JSON.stringify\<close>\<close>

text \<open>
  The fonts come out of \<^verbatim>\<open>JSON.parse\<close>, so a font is a JSON object: its fields in the order
  they were written, each key once. Numbers are the integers from \<open>- 2 ^ 53\<close> to
  \<open>2 ^ 53 - 1\<close> (the signed value of 54 bits), which a JavaScript number holds exactly and
  \<^verbatim>\<open>JSON.stringify\<close> writes digit by digit; fractions are left out. \<open>None\<close> is JavaScript's
  \<^verbatim>\<open>undefined\<close>, the value of a field that is not there.
\<close>

datatype json = JNull | JBool bool | JNum "54 word" | JStr string
  | JArr "json list" | JObj "(string \<times> json) list"

type_synonym jsobject = "(string \<times> json) list"

definition prop_of :: "jsobject \<Rightarrow> string \<Rightarrow> json option" where
  "prop_of obj key = map_of obj key"

fun truthy :: "json \<Rightarrow> bool" where
  "truthy JNull = False"
| "truthy (JBool b) = b"
| "truthy (JNum i) = (i \<noteq> 0)"
| "truthy (JStr s) = (s \<noteq> [])"
| "truthy (JArr xs) = True"
| "truthy (JObj kvs) = True"

fun digits_of :: "nat \<Rightarrow> string" where
  "digits_of n = (if n < 10 then [char_of (48 + n)]
                  else digits_of (n div 10) @ [char_of (48 + n mod 10)])"

declare digits_of.simps [simp del]

definition show_int :: "int \<Rightarrow> string" where
  "show_int i = (if i < 0 then CHR ''-'' # digits_of (nat (- i)) else digits_of (nat i))"

definition hex_digit :: "nat \<Rightarrow> char" where
  "hex_digit n = ''0123456789abcdef'' ! (n mod 16)"

text \<open>The escapes of \<^verbatim>\<open>JSON.stringify\<close>: the quote, the backslash and the control characters.\<close>

definition escape_char :: "char \<Rightarrow> string" where
  "escape_char c =
     (if c = CHR 0x22 then [CHR 0x5C, CHR 0x22]
      else if c = CHR 0x5C then [CHR 0x5C, CHR 0x5C]
      else if c = CHR 0x08 then [CHR 0x5C, CHR ''b'']
      else if c = CHR 0x0C then [CHR 0x5C, CHR ''f'']
      else if c = CHR 0x0A then [CHR 0x5C, CHR ''n'']
      else if c = CHR 0x0D then [CHR 0x5C, CHR ''r'']
      else if c = CHR 0x09 then [CHR 0x5C, CHR ''t'']
      else if of_char c < (32::nat) then
        [CHR 0x5C, CHR ''u'', CHR ''0'', CHR ''0'',
         hex_digit (of_char c div 16), hex_digit (of_char c mod 16)]
      else [c])"

definition quote :: "string \<Rightarrow> string" where
  "quote s = CHR 0x22 # concat (map escape_char s) @ [CHR 0x22]"

fun join :: "string \<Rightarrow> string list \<Rightarrow> string" where
  "join sep [] = []"
| "join sep [x] = x"
| "join sep (x # y # ys) = x @ sep @ join sep (y # ys)"

fun stringify :: "json \<Rightarrow> string" where
  "stringify JNull = ''null''"
| "stringify (JBool b) = (if b then ''true'' else ''false'')"
| "stringify (JNum i) = show_int (sint i)"
| "stringify (JStr s) = quote s"
| "stringify (JArr xs) = ''['' @ join '','' (map stringify xs) @ '']''"
| "stringify (JObj kvs) =
     ''{'' @ join '','' (map (\<lambda>(k, v). quote k @ '':'' @ stringify v) kvs) @ ''}''"

subsection \<open>The fingerprint of a font configuration\<close>

text \<open>
  \<^verbatim>\<open>fonts.map((f) => ({ name: f.name, url1: f.url1, url2: f.url2 }))\<close>: the three fields in
  this order. \<^verbatim>\<open>JSON.stringify\<close> leaves out a field whose value is \<^verbatim>\<open>undefined\<close>.
\<close>

definition logical_fields :: "jsobject \<Rightarrow> json" where
  "logical_fields f =
     JObj (List.map_filter (\<lambda>k. map_option (\<lambda>v. (k, v)) (prop_of f k))
             [''name'', ''url1'', ''url2''])"

text \<open>
  SHA-256 is Node's \<^verbatim>\<open>crypto\<close>, not code of the repository: the digest is a parameter, a
  function from the bytes to 256 bits. \<^verbatim>\<open>digest('hex')\<close> writes them as 64 hex digits.
\<close>

definition hex256 :: "256 word \<Rightarrow> string" where
  "hex256 w = map (\<lambda>i. hex_digit (unat (drop_bit (4 * i) w) mod 16)) (rev [0..<64])"

definition generateFontConfigHash :: "(string \<Rightarrow> 256 word) \<Rightarrow> jsobject list \<Rightarrow> string" where
  "generateFontConfigHash sha fl = hex256 (sha (stringify (JArr (map logical_fields fl))))"

subsection \<open>Errors, the world and the environment\<close>

text \<open>
  The filesystem calls that can throw: the two \<^verbatim>\<open>mkdirSync\<close>, the \<^verbatim>\<open>writeFileSync\<close> of the
  state file and of a file of the fonts directory, \<^verbatim>\<open>readdirSync\<close> and \<^verbatim>\<open>unlinkSync\<close>.
\<close>

datatype fs_call = MkdirAstro | MkdirFonts | WriteState | WriteFile string
  | Readdir | Unlink string

text \<open>
  What can be thrown. \<open>ThrownUndefined\<close> is \<^verbatim>\<open>throw lastError\<close> of a retry loop whose body
  never ran. \<open>FetchError\<close> is a fetch that rejects: the timeout's abort, a connection reset,
  a URL that cannot be requested.
\<close>

datatype error = ThrownUndefined | FetchError string | HttpError nat | FsError fs_call
  | ParseError | TypeError

text \<open>An entry of \<^verbatim>\<open>fontData\<close>: \<^verbatim>\<open>{ name, woff, woff2 }\<close>, a path or \<^verbatim>\<open>null\<close> for each format.\<close>

record font_entry =
  name :: "json option"
  woff :: "string option"
  woff2 :: "string option"

text \<open>The manifest of \<^verbatim>\<open>.astro/font-cache-state.json\<close>.\<close>

record cache_state =
  lastSync :: "string option"
  configHash :: "string option"
  fonts :: "font_entry list"
  version :: string

text \<open>
  The state file is held as what \<^verbatim>\<open>JSON.parse(fs.readFileSync(...))\<close> makes of it: it is not
  there, or reading or parsing it throws, or it is a manifest (what \<^verbatim>\<open>JSON.stringify\<close> wrote
  is what \<^verbatim>\<open>JSON.parse\<close> reads back).
\<close>

datatype state_file = NoFile | Unparseable | Manifest cache_state

text \<open>
  A file of the fonts directory: the bytes of a font, the metadata \<^verbatim>\<open>{ fonts: [...] }\<close>, or
  what a write that failed after opening the file has left of it.
\<close>

datatype content = FontBytes string | FontsJson "font_entry list" | Partial

text \<open>The warnings and errors printed; the progress messages are left out.\<close>

datatype log_event = InvalidCacheState | SaveStateError | MissingCachedFonts
  | FailedWoff "json option" | FailedWoff2 "json option" | SkippingFont "json option"
  | RestoreFailed | KirbyUrlNotSet | NoFontsFound | PluginError error | ContinuingOnNetlify

text \<open>
  The world: the arguments of the fetches made so far, the delays awaited so far (in ms),
  the printed warnings, the directory \<^verbatim>\<open>./.astro\<close> (\<open>None\<close> when it does not exist, else its
  state file) and the directory \<^verbatim>\<open>./public/fonts\<close> (\<open>None\<close> when it does not exist, else its
  files by name).
\<close>

record world =
  requests :: "json list"
  sleeps :: "int list"
  console :: "log_event list"
  astro :: "state_file option"
  fonts_dir :: "(string \<times> content) list option"

datatype net_outcome = Rejected string | Response nat string

text \<open>
  The environment of a build: \<open>net\<close> answers a fetch from the fetches made before it and
  its argument, with a rejection or with a status and a body; \<open>fs_fails\<close> says which
  filesystem calls throw, and \<open>leaves_partial\<close> which of the writes that throw do so after
  the file has been opened, so that it is left empty or partly written; \<open>now\<close> is \<^verbatim>\<open>new Date().toISOString()\<close>; \<open>sha256\<close> is the digest;
  \<open>kirby_url\<close>, \<open>netlify\<close> and \<open>development\<close> are \<^verbatim>\<open>process.env.KIRBY_URL\<close>,
  \<^verbatim>\<open>process.env.NETLIFY\<close> and \<^verbatim>\<open>NODE_ENV === 'development'\<close>; \<open>restore_fonts\<close> and
  \<open>restore_state\<close> are Netlify's \<^verbatim>\<open>utils.cache.restore\<close> on the two paths (\<open>None\<close> when it
  throws); \<open>parse_fonts\<close> is \<^verbatim>\<open>JSON.parse(...).font\<close> of the body of \<^verbatim>\<open>global.json\<close>, read
  as absent or as a list of font objects.
\<close>

record env =
  net :: "json list \<Rightarrow> json \<Rightarrow> net_outcome"
  fs_fails :: "fs_call \<Rightarrow> bool"
  leaves_partial :: "fs_call \<Rightarrow> bool"
  now :: string
  sha256 :: "string \<Rightarrow> 256 word"
  kirby_url :: "string option"
  netlify :: bool
  development :: bool
  restore_fonts :: "(string \<times> content) list option \<Rightarrow> (string \<times> content) list option option"
  restore_state :: "state_file option \<Rightarrow> state_file option option"
  parse_fonts :: "string \<Rightarrow> error + jsobject list option"

record opts =
  timeout :: int
  maxRetries :: int
  retryDelay :: int

record options =
  opt_timeout :: "int option"
  opt_maxRetries :: "int option"
  opt_retryDelay :: "int option"

definition defaultOptions :: opts where
  "defaultOptions = \<lparr>timeout = 30000, maxRetries = 3, retryDelay = 1000\<rparr>"

text \<open>\<^verbatim>\<open>{ ...defaultOptions, ...options }\<close>, then the defaults of \<^verbatim>\<open>downloadFont\<close>'s destructuring.\<close>

definition merge_options :: "options \<Rightarrow> opts" where
  "merge_options os =
     \<lparr>timeout = (case opt_timeout os of None \<Rightarrow> 30000 | Some t \<Rightarrow> t),
      maxRetries = (case opt_maxRetries os of None \<Rightarrow> 3 | Some m \<Rightarrow> m),
      retryDelay = (case opt_retryDelay os of None \<Rightarrow> 1000 | Some d \<Rightarrow> d)\<rparr>"

subsection \<open>\<^verbatim>\<open>retryWithBackoff\<close> and \<^verbatim>\<open>downloadFont\<close>\<close>

text \<open>
  The loop \<^verbatim>\<open>for (attempt = 0; attempt <= maxRetries; attempt++)\<close> over any state: \<open>fn\<close> is
  the operation, \<open>pause\<close> is \<^verbatim>\<open>await new Promise((resolve) => setTimeout(resolve, delay))\<close>.
\<close>

function retry_from ::
  "('s \<Rightarrow> (error + 'a) \<times> 's) \<Rightarrow> (int \<Rightarrow> 's \<Rightarrow> 's) \<Rightarrow> int \<Rightarrow> int \<Rightarrow> int \<Rightarrow> error \<Rightarrow> 's
     \<Rightarrow> (error + 'a) \<times> 's" where
  "retry_from fn pause maxR baseDelay attempt lastError s =
     (if attempt \<le> maxR then
        (case fn s of
           (Inr v, s1) \<Rightarrow> (Inr v, s1)
         | (Inl e, s1) \<Rightarrow>
             retry_from fn pause maxR baseDelay (attempt + 1) e
               (if attempt < maxR then pause (baseDelay * 2 ^ nat attempt) s1 else s1))
      else (Inl lastError, s))"
  by pat_completeness auto
termination
  by (relation "measure (\<lambda>(fn, pause, maxR, baseDelay, attempt, lastError, s).
        nat (maxR + 1 - attempt))") auto

declare retry_from.simps [simp del]

definition retryWithBackoff ::
  "('s \<Rightarrow> (error + 'a) \<times> 's) \<Rightarrow> (int \<Rightarrow> 's \<Rightarrow> 's) \<Rightarrow> int \<Rightarrow> int \<Rightarrow> 's \<Rightarrow> (error + 'a) \<times> 's" where
  "retryWithBackoff fn pause maxR baseDelay s =
     retry_from fn pause maxR baseDelay 0 ThrownUndefined s"

definition sleep_ms :: "int \<Rightarrow> world \<Rightarrow> world" where
  "sleep_ms d w = w\<lparr>sleeps := sleeps w @ [d]\<rparr>"

text \<open>
  One attempt of \<^verbatim>\<open>downloadFont\<close>: the fetch under its abort timer, then
  \<^verbatim>\<open>if (!response.ok) throw new Error(`HTTP ${response.status}...`)\<close>.
\<close>

definition fetch_attempt :: "env \<Rightarrow> json \<Rightarrow> world \<Rightarrow> (error + string) \<times> world" where
  "fetch_attempt env url w =
     (let w1 = w\<lparr>requests := requests w @ [url]\<rparr> in
      case net env (requests w) url of
        Rejected msg \<Rightarrow> (Inl (FetchError msg), w1)
      | Response status body \<Rightarrow>
          if 200 \<le> status \<and> status \<le> 299 then (Inr body, w1)
          else (Inl (HttpError status), w1))"

definition downloadFont :: "env \<Rightarrow> json \<Rightarrow> opts \<Rightarrow> world \<Rightarrow> (error + string) \<times> world" where
  "downloadFont env url os w =
     retryWithBackoff (fetch_attempt env url) sleep_ms (maxRetries os) (retryDelay os) w"




subsection \<open>The cache state store\<close>

text \<open>\<^verbatim>\<open>getFontCacheStatePath\<close>: creates \<^verbatim>\<open>./.astro\<close> when it is not there.\<close>

definition getFontCacheStatePath :: "env \<Rightarrow> world \<Rightarrow> error + world" where
  "getFontCacheStatePath env w =
     (case astro w of
        Some sf \<Rightarrow> Inr w
      | None \<Rightarrow>
          if fs_fails env MkdirAstro then Inl (FsError MkdirAstro)
          else Inr (w\<lparr>astro := Some NoFile\<rparr>))"

definition fresh_state :: cache_state where
  "fresh_state = \<lparr>lastSync = None, configHash = None, fonts = [], version = ''1.0.0''\<rparr>"

definition loadFontCacheState :: "env \<Rightarrow> world \<Rightarrow> (error + cache_state) \<times> world" where
  "loadFontCacheState env w =
     (case getFontCacheStatePath env w of
        Inl e \<Rightarrow> (Inl e, w)
      | Inr w1 \<Rightarrow>
          (case astro w1 of
             Some (Manifest m) \<Rightarrow> (Inr m, w1)
           | Some Unparseable \<Rightarrow>
               (Inr fresh_state, w1\<lparr>console := console w1 @ [InvalidCacheState]\<rparr>)
           | _ \<Rightarrow> (Inr fresh_state, w1)))"

text \<open>
  \<^verbatim>\<open>saveFontCacheState\<close>: the write is in a \<^verbatim>\<open>try\<close> whose \<^verbatim>\<open>catch\<close> prints the error. A write
  that throws before the file is opened leaves the file as it was; one that throws later
  has truncated it, and what is left does not parse.
\<close>

definition saveFontCacheState :: "env \<Rightarrow> cache_state \<Rightarrow> world \<Rightarrow> (error + unit) \<times> world" where
  "saveFontCacheState env st w =
     (case getFontCacheStatePath env w of
        Inl e \<Rightarrow> (Inl e, w)
      | Inr w1 \<Rightarrow>
          if fs_fails env WriteState then
            (let w2 = (if leaves_partial env WriteState then w1\<lparr>astro := Some Unparseable\<rparr>
                       else w1)
             in (Inr (), w2\<lparr>console := console w2 @ [SaveStateError]\<rparr>))
          else (Inr (), w1\<lparr>astro := Some (Manifest st)\<rparr>))"

text \<open>\<^verbatim>\<open>!cachedState.configHash || cachedState.configHash !== newHash\<close>\<close>

definition hasFontConfigChanged ::
  "(string \<Rightarrow> 256 word) \<Rightarrow> jsobject list \<Rightarrow> cache_state \<Rightarrow> bool" where
  "hasFontConfigChanged sha fl cachedState =
     (let newHash = generateFontConfigHash sha fl in
      (case configHash cachedState of None \<Rightarrow> True | Some h \<Rightarrow> h = [] \<or> h \<noteq> newHash))"

subsection \<open>\<^verbatim>\<open>downloadFontsWithCache\<close>\<close>

text \<open>
  \<^verbatim>\<open>path.basename\<close> (POSIX): the trailing slashes are dropped, then the part after the
  last slash is taken.
\<close>

definition basename :: "string \<Rightarrow> string" where
  "basename p =
     rev (takeWhile (\<lambda>c. c \<noteq> CHR ''/'') (dropWhile (\<lambda>c. c = CHR ''/'') (rev p)))"

definition ensure_fonts_dir :: "env \<Rightarrow> world \<Rightarrow> error + world" where
  "ensure_fonts_dir env w =
     (case fonts_dir w of
        Some files \<Rightarrow> Inr w
      | None \<Rightarrow>
          if fs_fails env MkdirFonts then Inl (FsError MkdirFonts)
          else Inr (w\<lparr>fonts_dir := Some []\<rparr>))"

text \<open>
  \<^verbatim>\<open>fs.writeFileSync(path.join(fontsDir, fileName), ...)\<close>. With the name empty, \<^verbatim>\<open>.\<close> or
  \<^verbatim>\<open>..\<close> the joined path is a directory and the write throws, as it does when the
  directory is not there; nothing changes then. When the environment makes the write
  throw, it says whether the file was opened before: then a partial file is left.
\<close>

definition writeFile :: "env \<Rightarrow> string \<Rightarrow> content \<Rightarrow> world \<Rightarrow> (error + unit) \<times> world" where
  "writeFile env fileName c w =
     (case fonts_dir w of
        None \<Rightarrow> (Inl (FsError (WriteFile fileName)), w)
      | Some files \<Rightarrow>
          if fileName \<in> {[], ''.'', ''..''} then (Inl (FsError (WriteFile fileName)), w)
          else if fs_fails env (WriteFile fileName) then
            (Inl (FsError (WriteFile fileName)),
             if leaves_partial env (WriteFile fileName)
             then w\<lparr>fonts_dir := Some (AList.update fileName Partial files)\<rparr> else w)
          else (Inr (), w\<lparr>fonts_dir := Some (AList.update fileName c files)\<rparr>))"

text \<open>
  \<^verbatim>\<open>!font.woff || fs.existsSync(path.join(fontsDir, path.basename(font.woff)))\<close>: with the
  base name empty, \<^verbatim>\<open>.\<close> or \<^verbatim>\<open>..\<close> the joined path is the fonts directory or its parent.
\<close>

definition cached_file_exists :: "world \<Rightarrow> string option \<Rightarrow> bool" where
  "cached_file_exists w p =
     (case p of
        None \<Rightarrow> True
      | Some s \<Rightarrow>
          s = [] \<or>
          (case fonts_dir w of
             None \<Rightarrow> False
           | Some files \<Rightarrow>
               basename s \<in> {[], ''.'', ''..''} \<or> map_of files (basename s) \<noteq> None))"

definition allFilesExist :: "world \<Rightarrow> font_entry list \<Rightarrow> bool" where
  "allFilesExist w fs =
     list_all (\<lambda>font. cached_file_exists w (woff font) \<and> cached_file_exists w (woff2 font)) fs"

text \<open>
  \<^verbatim>\<open>for (const file of files) if (file !== 'fonts.json') fs.unlinkSync(...)\<close>: when an
  unlink throws, the files before it are gone.
\<close>

fun unlink_all :: "env \<Rightarrow> string list \<Rightarrow> world \<Rightarrow> (error + unit) \<times> world" where
  "unlink_all env [] w = (Inr (), w)"
| "unlink_all env (f # fs) w =
     (if f \<noteq> ''fonts.json'' then
        (if fs_fails env (Unlink f) then (Inl (FsError (Unlink f)), w)
         else unlink_all env fs (w\<lparr>fonts_dir := map_option (AList.delete f) (fonts_dir w)\<rparr>))
      else unlink_all env fs w)"

definition clean_old_fonts :: "env \<Rightarrow> world \<Rightarrow> (error + unit) \<times> world" where
  "clean_old_fonts env w =
     (case fonts_dir w of
        None \<Rightarrow> (Inl (FsError Readdir), w)
      | Some files \<Rightarrow>
          if fs_fails env Readdir then (Inl (FsError Readdir), w)
          else unlink_all env (map fst files) w)"

text \<open>
  The \<^verbatim>\<open>catch\<close> of one format: it prints \<^verbatim>\<open>error.message\<close>. Reading \<^verbatim>\<open>message\<close> of the
  \<^verbatim>\<open>undefined\<close> that a retry loop without attempts throws is a \<^verbatim>\<open>TypeError\<close>, thrown out
  of the \<^verbatim>\<open>catch\<close> before anything is printed.
\<close>

definition catch_format :: "log_event \<Rightarrow> error \<Rightarrow> world \<Rightarrow> (error + string option) \<times> world" where
  "catch_format failed e w =
     (if e = ThrownUndefined then (Inl TypeError, w)
      else (Inr None, w\<lparr>console := console w @ [failed]\<rparr>))"

text \<open>
  One format of one font: \<^verbatim>\<open>if (font.url1) { try { download; write; woffPath = ... } catch
  { warn } }\<close>. \<^verbatim>\<open>path.basename\<close> throws on a URL that is not a string, inside the \<^verbatim>\<open>try\<close>.
\<close>

definition download_format ::
  "env \<Rightarrow> opts \<Rightarrow> log_event \<Rightarrow> json option \<Rightarrow> world \<Rightarrow> (error + string option) \<times> world" where
  "download_format env os failed url w =
     (case url of
        None \<Rightarrow> (Inr None, w)
      | Some u \<Rightarrow>
          if \<not> truthy u then (Inr None, w)
          else
            (case downloadFont env u os w of
               (Inl e, w1) \<Rightarrow> catch_format failed e w1
             | (Inr buffer, w1) \<Rightarrow>
                 (case u of
                    JStr s \<Rightarrow>
                      (case writeFile env (basename s) (FontBytes buffer) w1 of
                         (Inl e, w2) \<Rightarrow> catch_format failed e w2
                       | (Inr x, w2) \<Rightarrow> (Inr (Some (''/fonts/'' @ basename s)), w2))
                  | _ \<Rightarrow> catch_format failed TypeError w1)))"

text \<open>The body of \<^verbatim>\<open>for (const font of fonts)\<close> up to the push or the skip.\<close>

definition process_font ::
  "env \<Rightarrow> opts \<Rightarrow> jsobject \<Rightarrow> world \<Rightarrow> (error + font_entry option) \<times> world" where
  "process_font env os font w =
     (let fontName = prop_of font ''name'' in
      case download_format env os (FailedWoff fontName) (prop_of font ''url1'') w of
        (Inl e, w1) \<Rightarrow> (Inl e, w1)
      | (Inr woffPath, w1) \<Rightarrow>
          (case download_format env os (FailedWoff2 fontName) (prop_of font ''url2'') w1 of
             (Inl e, w2) \<Rightarrow> (Inl e, w2)
           | (Inr woff2Path, w2) \<Rightarrow>
               if woffPath \<noteq> None \<or> woff2Path \<noteq> None
               then (Inr (Some \<lparr>name = fontName, woff = woffPath, woff2 = woff2Path\<rparr>), w2)
               else (Inr None, w2\<lparr>console := console w2 @ [SkippingFont fontName]\<rparr>)))"

text \<open>
  The loop. The fonts are distinct objects, so \<^verbatim>\<open>fonts.indexOf(font) < fonts.length - 1\<close>
  says that \<open>font\<close> is not the last one: then 100 ms are awaited.
\<close>

fun download_loop ::
  "env \<Rightarrow> opts \<Rightarrow> jsobject list \<Rightarrow> font_entry list \<Rightarrow> world
     \<Rightarrow> (error + font_entry list) \<times> world" where
  "download_loop env os [] fontData w = (Inr fontData, w)"
| "download_loop env os (font # rest) fontData w =
     (case process_font env os font w of
        (Inl e, w1) \<Rightarrow> (Inl e, w1)
      | (Inr r, w1) \<Rightarrow>
          download_loop env os rest
            (case r of Some e \<Rightarrow> fontData @ [e] | None \<Rightarrow> fontData)
            (if rest \<noteq> [] then sleep_ms 100 w1 else w1))"

text \<open>From \<^verbatim>\<open>// Clean old fonts\<close> to the end of \<^verbatim>\<open>downloadFontsWithCache\<close>.\<close>

definition download_fresh ::
  "env \<Rightarrow> opts \<Rightarrow> jsobject list \<Rightarrow> world \<Rightarrow> (error + font_entry list) \<times> world" where
  "download_fresh env os fl w =
     (case clean_old_fonts env w of
        (Inl e, w1) \<Rightarrow> (Inl e, w1)
      | (Inr c, w1) \<Rightarrow>
          (case download_loop env os fl [] w1 of
             (Inl e, w2) \<Rightarrow> (Inl e, w2)
           | (Inr fontData, w2) \<Rightarrow>
               (case writeFile env ''fonts.json'' (FontsJson fontData) w2 of
                  (Inl e, w3) \<Rightarrow> (Inl e, w3)
                | (Inr x, w3) \<Rightarrow>
                    (case saveFontCacheState env
                            \<lparr>lastSync = Some (now env),
                             configHash = Some (generateFontConfigHash (sha256 env) fl),
                             fonts = fontData, version = ''1.0.0''\<rparr> w3 of
                       (Inl e, w4) \<Rightarrow> (Inl e, w4)
                     | (Inr u, w4) \<Rightarrow> (Inr fontData, w4)))))"

definition downloadFontsWithCache ::
  "env \<Rightarrow> jsobject list \<Rightarrow> options \<Rightarrow> world \<Rightarrow> (error + font_entry list) \<times> world" where
  "downloadFontsWithCache env fl os w =
     (let opts = merge_options os in
      case ensure_fonts_dir env w of
        Inl e \<Rightarrow> (Inl e, w)
      | Inr w1 \<Rightarrow>
          (case loadFontCacheState env w1 of
             (Inl e, w2) \<Rightarrow> (Inl e, w2)
           | (Inr cacheState, w2) \<Rightarrow>
               (let configChanged = hasFontConfigChanged (sha256 env) fl cacheState in
                if \<not> configChanged \<and> length (fonts cacheState) > 0 then
                  (if allFilesExist w2 (fonts cacheState) then
                     (case writeFile env ''fonts.json'' (FontsJson (fonts cacheState)) w2 of
                        (Inl e, w3) \<Rightarrow> (Inl e, w3)
                      | (Inr x, w3) \<Rightarrow> (Inr (fonts cacheState), w3))
                   else download_fresh env opts fl
                          (w2\<lparr>console := console w2 @ [MissingCachedFonts]\<rparr>))
                else download_fresh env opts fl w2)))"

subsection \<open>The two entry points\<close>

text \<open>
  What both hooks do once the origin is known: fetch \<^verbatim>\<open>global.json\<close>, read its fonts, write
  an empty \<^verbatim>\<open>fonts.json\<close> when there are none, else \<^verbatim>\<open>downloadFontsWithCache\<close>.
\<close>

definition sync_fonts ::
  "env \<Rightarrow> string \<Rightarrow> opts \<Rightarrow> options \<Rightarrow> world \<Rightarrow> (error + unit) \<times> world" where
  "sync_fonts env api fetch_opts os w =
     (case downloadFont env (JStr (api @ ''/global.json'')) fetch_opts w of
        (Inl e, w1) \<Rightarrow> (Inl e, w1)
      | (Inr globalBuffer, w1) \<Rightarrow>
          (case parse_fonts env globalBuffer of
             Inl e \<Rightarrow> (Inl e, w1)
           | Inr fs \<Rightarrow>
               if fs = None \<or> fs = Some [] then
                 (case ensure_fonts_dir env w1 of
                    Inl e \<Rightarrow> (Inl e, w1)
                  | Inr w2 \<Rightarrow>
                      (case writeFile env ''fonts.json'' (FontsJson []) w2 of
                         (Inl e, w3) \<Rightarrow> (Inl e, w3)
                       | (Inr x, w3) \<Rightarrow> (Inr (), w3\<lparr>console := console w3 @ [NoFontsFound]\<rparr>)))
               else
                 (case downloadFontsWithCache env (the fs) os w1 of
                    (Inl e, w2) \<Rightarrow> (Inl e, w2)
                  | (Inr fontData, w2) \<Rightarrow> (Inr (), w2))))"

text \<open>The first \<^verbatim>\<open>try\<close> of \<^verbatim>\<open>onPreBuild\<close>: Netlify's cache is restored; a throw is a warning.\<close>

definition restore_cache :: "env \<Rightarrow> world \<Rightarrow> world" where
  "restore_cache env w =
     (case restore_fonts env (fonts_dir w) of
        None \<Rightarrow> w\<lparr>console := console w @ [RestoreFailed]\<rparr>
      | Some fd \<Rightarrow>
          (let w1 = w\<lparr>fonts_dir := fd\<rparr> in
           case restore_state env (astro w1) of
             None \<Rightarrow> w1\<lparr>console := console w1 @ [RestoreFailed]\<rparr>
           | Some a \<Rightarrow>
               (let w2 = w1\<lparr>astro := a\<rparr> in
                if a \<noteq> None \<and> a \<noteq> Some NoFile then
                  (case loadFontCacheState env w2 of
                     (Inl e, w3) \<Rightarrow> w3\<lparr>console := console w3 @ [RestoreFailed]\<rparr>
                   | (Inr st, w3) \<Rightarrow> w3)
                else w2)))"

definition no_options :: options where
  "no_options = \<lparr>opt_timeout = None, opt_maxRetries = None, opt_retryDelay = None\<rparr>"

text \<open>
  \<^verbatim>\<open>onPreBuild\<close>. The \<^verbatim>\<open>catch\<close> of its second \<^verbatim>\<open>try\<close> prints \<^verbatim>\<open>error.message\<close> first, which
  is a \<^verbatim>\<open>TypeError\<close> on a thrown \<^verbatim>\<open>undefined\<close>; then it goes on when on Netlify and throws
  the error again otherwise.
\<close>

definition onPreBuild :: "env \<Rightarrow> world \<Rightarrow> (error + unit) \<times> world" where
  "onPreBuild env w =
     (case getFontCacheStatePath env w of
        Inl e \<Rightarrow> (Inl e, w)
      | Inr w0 \<Rightarrow>
          (let w1 = restore_cache env w0 in
           if kirby_url env = None \<or> kirby_url env = Some [] then
             (Inr (), w1\<lparr>console := console w1 @ [KirbyUrlNotSet]\<rparr>)
           else
             (case sync_fonts env (the (kirby_url env)) defaultOptions no_options w1 of
                (Inl e, w2) \<Rightarrow>
                  if e = ThrownUndefined then (Inl TypeError, w2)
                  else
                    (let w3 = w2\<lparr>console := console w2 @ [PluginError e]\<rparr> in
                     if netlify env
                     then (Inr (), w3\<lparr>console := console w3 @ [ContinuingOnNetlify]\<rparr>)
                     else (Inl e, w3))
              | (Inr u, w2) \<Rightarrow> (Inr (), w2))))"

text \<open>
  The hook \<^verbatim>\<open>astro:config:setup\<close> of the integration \<^verbatim>\<open>fontDownloader(userOptions)\<close>. Its
  \<^verbatim>\<open>catch\<close> prints \<^verbatim>\<open>error.message\<close>, a \<^verbatim>\<open>TypeError\<close> on a thrown \<^verbatim>\<open>undefined\<close>, and throws
  the error again.
\<close>

definition fontDownloader :: "env \<Rightarrow> options \<Rightarrow> world \<Rightarrow> (error + unit) \<times> world" where
  "fontDownloader env userOptions w =
     (if development env then (Inr (), w)
      else if netlify env then (Inr (), w)
      else if kirby_url env = None \<or> kirby_url env = Some [] then
        (Inr (), w\<lparr>console := console w @ [KirbyUrlNotSet]\<rparr>)
      else
        (case sync_fonts env (the (kirby_url env)) (merge_options userOptions) userOptions w of
           (Inl e, w1) \<Rightarrow>
             if e = ThrownUndefined then (Inl TypeError, w1)
             else (Inl e, w1\<lparr>console := console w1 @ [PluginError e]\<rparr>)
         | (Inr u, w1) \<Rightarrow> (Inr (), w1)))"

subsection \<open>\<^verbatim>\<open>sanitizePath\<close>\<close>

text \<open>
  \<^verbatim>\<open>path.posix.normalize\<close> is Node's. It is modelled on the segments of the path: empty
  segments and \<^verbatim>\<open>.\<close> are dropped, \<^verbatim>\<open>..\<close> removes the segment before it, or is kept at the
  front of a relative path; a trailing slash is kept. The platform is POSIX, where
  \<^verbatim>\<open>path.isAbsolute\<close> asks for a leading slash.
\<close>

fun split_on :: "char \<Rightarrow> string \<Rightarrow> string list" where
  "split_on sep [] = [[]]"
| "split_on sep (c # s) =
     (if c = sep then [] # split_on sep s
      else (case split_on sep s of [] \<Rightarrow> [[c]] | x # xs \<Rightarrow> (c # x) # xs))"

fun normalize_segments :: "bool \<Rightarrow> string list \<Rightarrow> string list \<Rightarrow> string list" where
  "normalize_segments allowAboveRoot [] res = res"
| "normalize_segments allowAboveRoot (seg # segs) res =
     (if seg = [] \<or> seg = ''.'' then normalize_segments allowAboveRoot segs res
      else if seg = ''..'' then
        (if res \<noteq> [] \<and> last res \<noteq> ''..'' then normalize_segments allowAboveRoot segs (butlast res)
         else if allowAboveRoot then normalize_segments allowAboveRoot segs (res @ [''..''])
         else normalize_segments allowAboveRoot segs res)
      else normalize_segments allowAboveRoot segs (res @ [seg]))"

definition isAbsolute :: "string \<Rightarrow> bool" where
  "isAbsolute p = (p \<noteq> [] \<and> hd p = CHR ''/'')"

definition normalize_path :: "string \<Rightarrow> string" where
  "normalize_path p =
     (if p = [] then ''.''
      else
        (let trailing = (last p = CHR ''/'');
             body = join ''/'' (normalize_segments (\<not> isAbsolute p) (split_on CHR ''/'' p) [])
         in if body = [] then (if isAbsolute p then ''/'' else if trailing then ''./'' else ''.'')
            else (if isAbsolute p then ''/'' else []) @ body @ (if trailing then ''/'' else [])))"

text \<open>\<^verbatim>\<open>String.prototype.includes\<close>\<close>

fun str_includes :: "string \<Rightarrow> string \<Rightarrow> bool" where
  "str_includes [] pat = (pat = [])"
| "str_includes (c # s) pat = (prefix pat (c # s) \<or> str_includes s pat)"

datatype path_error = Required string | Traversal string string | NotRelative string string

definition sanitizePath :: "string \<Rightarrow> string \<Rightarrow> path_error + string" where
  "sanitizePath fieldName inputPath =
     (if inputPath = [] then Inl (Required fieldName)
      else
        (let normalized = normalize_path inputPath in
         if prefix ''../'' normalized \<or> str_includes normalized ''/../''
            \<or> str_includes normalized [CHR ''.'', CHR ''.'', CHR 0x5C] \<or> normalized = ''..''
         then Inl (Traversal fieldName inputPath)
         else if isAbsolute normalized then Inl (NotRelative fieldName inputPath)
         else Inr normalized))"

subsection \<open>Auxiliary notions for the statements\<close>

text \<open>What one attempt makes of the answer of the network.\<close>

definition outcome_of :: "net_outcome \<Rightarrow> error + string" where
  "outcome_of r =
     (case r of
        Rejected msg \<Rightarrow> Inl (FetchError msg)
      | Response status body \<Rightarrow>
          if 200 \<le> status \<and> status \<le> 299 then Inr body else Inl (HttpError status))"

text \<open>
  Example builds: an environment whose network resets every connection and whose
  filesystem never throws, one whose origin answers every request with 404, and a world
  in which nothing has happened yet and neither directory exists.
\<close>

definition quiet_env :: env where
  "quiet_env =
     \<lparr>net = (\<lambda>h u. Rejected ''ECONNRESET''), fs_fails = (\<lambda>c. False),
      leaves_partial = (\<lambda>c. False), now = ''2025-06-01T00:00:00.000Z'', sha256 = (\<lambda>s. of_nat (length s)),
      kirby_url = None, netlify = False, development = False,
      restore_fonts = Some, restore_state = Some, parse_fonts = (\<lambda>s. Inr None)\<rparr>"

definition empty_world :: world where
  "empty_world = \<lparr>requests = [], sleeps = [], console = [], astro = None, fonts_dir = None\<rparr>"


text \<open>
  What \<^verbatim>\<open>loadFontCacheState\<close> finds on disk, and the condition under which
  \<^verbatim>\<open>downloadFontsWithCache\<close> answers from the cache: the fonts directory is there, the
  fingerprint of the fonts equals the cached \<^verbatim>\<open>configHash\<close>, the cached list is not empty and
  every file it records exists.
\<close>

definition cached_state :: "world \<Rightarrow> cache_state" where
  "cached_state w = (case astro w of Some (Manifest m) \<Rightarrow> m | _ \<Rightarrow> fresh_state)"

definition cache_hit :: "env \<Rightarrow> jsobject list \<Rightarrow> world \<Rightarrow> bool" where
  "cache_hit env fl w =
     (fonts_dir w \<noteq> None
      \<and> \<not> hasFontConfigChanged (sha256 env) fl (cached_state w)
      \<and> fonts (cached_state w) \<noteq> []
      \<and> allFilesExist w (fonts (cached_state w)))"

text \<open>
  The segments of a normalized relative path: every \<^verbatim>\<open>..\<close> stands before every other
  segment.
\<close>

definition dots_first :: "string list \<Rightarrow> bool" where
  "dots_first res = (''..'' \<notin> set (dropWhile (\<lambda>s. s = ''..'') res))"

text \<open>
  More example builds: an environment in which every filesystem call throws, a
  configuration of one font, its cache entry, a world holding a cache of that font from
  an earlier build, and a world whose manifest has an older version tag.
\<close>

definition readonly_env :: env where
  "readonly_env = quiet_env\<lparr>fs_fails := (\<lambda>c. True)\<rparr>"

definition inter_fonts :: "jsobject list" where
  "inter_fonts =
     [[(''name'', JStr ''Inter''), (''url1'', JStr ''https://cms.example/media/inter.woff'')]]"

definition inter_entry :: font_entry where
  "inter_entry = \<lparr>name = Some (JStr ''Inter''), woff = Some ''/fonts/inter.woff'', woff2 = None\<rparr>"

definition cached_world :: world where
  "cached_world =
     empty_world
       \<lparr>astro := Some (Manifest
          \<lparr>lastSync = Some ''2025-01-01T00:00:00.000Z'',
           configHash = Some (generateFontConfigHash (sha256 quiet_env) inter_fonts),
           fonts = [inter_entry], version = ''1.0.0''\<rparr>),
        fonts_dir := Some [(''inter.woff'', FontBytes ''wOFF'')]\<rparr>"

definition old_version_world :: world where
  "old_version_world =
     empty_world
       \<lparr>astro := Some (Manifest
          \<lparr>lastSync = Some ''2024-01-01T00:00:00.000Z'', configHash = Some ''0f'',
           fonts = [inter_entry], version = ''0.9.0''\<rparr>)\<rparr>"

text \<open>The names of the files in the fonts directory.\<close>

definition file_names :: "world \<Rightarrow> string set" where
  "file_names w = (case fonts_dir w of None \<Rightarrow> {} | Some files \<Rightarrow> fst ` set files)"

text \<open>
  The guard of the cache branch of \<^verbatim>\<open>downloadFontsWithCache\<close>, read in the world in which the
  run starts: the fonts directory is created empty when it is missing.
\<close>

definition answered_from_cache :: "env \<Rightarrow> jsobject list \<Rightarrow> world \<Rightarrow> bool" where
  "answered_from_cache env fl w =
     (\<not> hasFontConfigChanged (sha256 env) fl (cached_state w)
      \<and> fonts (cached_state w) \<noteq> []
      \<and> allFilesExist (case fonts_dir w of None \<Rightarrow> w\<lparr>fonts_dir := Some []\<rparr> | Some files \<Rightarrow> w)
          (fonts (cached_state w)))"

text \<open>
  What the environment decides about one format of a font, whenever it is tried. The
  origin never delivers a URL when every attempt at it fails, whatever was requested
  before, and always delivers it when every attempt succeeds; a URL can be stored when its
  base name is a file name and writing that file does not throw.

  A format fails for certain when there is no URL, or the URL is not a non-empty string,
  or the origin never delivers it, or it cannot be stored. It succeeds for certain when
  the URL is a non-empty string that the origin always delivers and that can be stored.
  A URL that the origin delivers at some attempts only is in neither class.
\<close>

definition never_delivered :: "env \<Rightarrow> json \<Rightarrow> bool" where
  "never_delivered env u = (\<forall>h. isl (outcome_of (net env h u)))"

definition always_delivered :: "env \<Rightarrow> json \<Rightarrow> bool" where
  "always_delivered env u = (\<forall>h. \<not> isl (outcome_of (net env h u)))"

definition can_store :: "env \<Rightarrow> string \<Rightarrow> bool" where
  "can_store env s =
     (basename s \<notin> {[], ''.'', ''..''} \<and> \<not> fs_fails env (WriteFile (basename s)))"

definition format_fails :: "env \<Rightarrow> json option \<Rightarrow> bool" where
  "format_fails env url =
     (case url of
        Some (JStr s) \<Rightarrow> s = [] \<or> never_delivered env (JStr s) \<or> \<not> can_store env s
      | _ \<Rightarrow> True)"

definition format_succeeds :: "env \<Rightarrow> json option \<Rightarrow> bool" where
  "format_succeeds env url =
     (case url of
        Some (JStr s) \<Rightarrow> s \<noteq> [] \<and> always_delivered env (JStr s) \<and> can_store env s
      | _ \<Rightarrow> False)"

definition font_fails :: "env \<Rightarrow> jsobject \<Rightarrow> bool" where
  "font_fails env f =
     (format_fails env (prop_of f ''url1'') \<and> format_fails env (prop_of f ''url2''))"

text \<open>
  The path recorded for a format that was stored, and what the result of a font has to do
  with the environment: \<open>None\<close> is a font that was skipped, which has no format that succeeds
  for certain; an entry has the name of the font and, for each format, either nothing or
  the path of its URL, nothing when the format fails for certain and the path when it
  succeeds for certain, and it records at least one path.
\<close>

definition format_path_of :: "json option \<Rightarrow> string option" where
  "format_path_of url =
     (case url of Some (JStr s) \<Rightarrow> Some (''/fonts/'' @ basename s) | _ \<Rightarrow> None)"

definition format_result :: "env \<Rightarrow> json option \<Rightarrow> string option \<Rightarrow> bool" where
  "format_result env url p =
     ((p = None \<or> p = format_path_of url)
      \<and> (format_fails env url \<longrightarrow> p = None)
      \<and> (format_succeeds env url \<longrightarrow> p \<noteq> None))"

definition font_result :: "env \<Rightarrow> jsobject \<Rightarrow> font_entry option \<Rightarrow> bool" where
  "font_result env f r =
     (case r of
        None \<Rightarrow>
          \<not> format_succeeds env (prop_of f ''url1'') \<and> \<not> format_succeeds env (prop_of f ''url2'')
      | Some e \<Rightarrow>
          name e = prop_of f ''name''
          \<and> format_result env (prop_of f ''url1'') (woff e)
          \<and> format_result env (prop_of f ''url2'') (woff2 e)
          \<and> (woff e \<noteq> None \<or> woff2 e \<noteq> None))"

text \<open>
  Example builds with failures: three fonts of which the second cannot be fetched, the
  entry of the third, an origin that delivers the first and the third only, and a
  configuration whose only font cannot be fetched.
\<close>

definition three_fonts :: "jsobject list" where
  "three_fonts =
     [[(''name'', JStr ''Inter''), (''url1'', JStr ''https://cms.example/media/inter.woff'')],
      [(''name'', JStr ''Broken''), (''url1'', JStr ''https://cms.example/media/broken.woff''),
       (''url2'', JStr ''https://cms.example/media/broken.woff2'')],
      [(''url2'', JStr ''https://cms.example/media/mono.woff2''), (''name'', JStr ''Mono'')]]"

definition mono_entry :: font_entry where
  "mono_entry = \<lparr>name = Some (JStr ''Mono''), woff = None, woff2 = Some ''/fonts/mono.woff2''\<rparr>"

definition partial_env :: env where
  "partial_env =
     quiet_env\<lparr>net := (\<lambda>h u. if u = JStr ''https://cms.example/media/inter.woff''
                                  \<or> u = JStr ''https://cms.example/media/mono.woff2''
                               then Response 200 ''wOFF'' else Rejected ''ECONNRESET'')\<rparr>"

definition broken_fonts :: "jsobject list" where
  "broken_fonts =
     [[(''name'', JStr ''Broken''), (''url1'', JStr ''https://cms.example/media/broken.woff'')]]"

section \<open>Properties\<close>

subsection \<open>The fingerprint\<close>

lemma logical_fields_cong:
  "prop_of f ''name'' = prop_of g ''name'' \<Longrightarrow> prop_of f ''url1'' = prop_of g ''url1''
   \<Longrightarrow> prop_of f ''url2'' = prop_of g ''url2'' \<Longrightarrow> logical_fields f = logical_fields g"
  by (simp add: logical_fields_def List.map_filter_def)

text \<open>
  Claim C4. \<^verbatim>\<open>generateFontConfigHash\<close> is a function of the logical fields only: two font
  lists whose elements agree pairwise on \<^verbatim>\<open>name\<close>, \<^verbatim>\<open>url1\<close> and \<^verbatim>\<open>url2\<close> have the same
  fingerprint, whatever the order of the fields in each object and whatever other fields
  the objects carry.
\<close>

theorem fingerprint_ignores_field_order:
  assumes "list_all2 (\<lambda>f g. prop_of f ''name'' = prop_of g ''name''
                          \<and> prop_of f ''url1'' = prop_of g ''url1''
                          \<and> prop_of f ''url2'' = prop_of g ''url2'') fs gs"
  shows "generateFontConfigHash sha fs = generateFontConfigHash sha gs"
proof -
  from assms have "map logical_fields fs = map logical_fields gs"
    by (induction rule: list_all2_induct) (auto intro: logical_fields_cong)
  then show ?thesis by (simp add: generateFontConfigHash_def)
qed

theorem fingerprint_ignores_field_order_witness:
  "generateFontConfigHash (\<lambda>s. of_nat (length s))
     [[(''name'', JStr ''Inter''), (''url1'', JStr ''https://cms.example/inter.woff''),
       (''weight'', JNum 400)]]
   = generateFontConfigHash (\<lambda>s. of_nat (length s))
     [[(''url1'', JStr ''https://cms.example/inter.woff''), (''name'', JStr ''Inter'')]]"
  using fingerprint_ignores_field_order
    [of "[[(''name'', JStr ''Inter''), (''url1'', JStr ''https://cms.example/inter.woff''),
       (''weight'', JNum 400)]]"
        "[[(''url1'', JStr ''https://cms.example/inter.woff''), (''name'', JStr ''Inter'')]]"
        "\<lambda>s. of_nat (length s)"]
  by (simp add: prop_of_def)

subsection \<open>Retry with exponential backoff\<close>





subsection \<open>\<^verbatim>\<open>downloadFont\<close>\<close>

lemma fetch_attempt_outcome:
  "fetch_attempt env u w = (outcome_of (net env (requests w) u), w\<lparr>requests := requests w @ [u]\<rparr>)"
  by (auto simp add: fetch_attempt_def outcome_of_def Let_def split: net_outcome.split)

lemma retry_fetch_exhausted:
  assumes "0 \<le> a" "a \<le> m + 1" "n = nat (m + 1 - a)"
    and "\<forall>h. outcome_of (net env h u) = Inl err"
  shows "retry_from (fetch_attempt env u) sleep_ms m d a e w
         = (Inl (if n = 0 then e else err),
            w\<lparr>requests := requests w @ replicate n u,
              sleeps := sleeps w @ map (\<lambda>i. d * 2 ^ (nat a + i)) [0..<n - 1]\<rparr>)"
  using assms(1-3)
proof (induction n arbitrary: a e w)
  case 0
  then have "\<not> a \<le> m" by simp
  then show ?case by (subst retry_from.simps) simp
next
  case (Suc n)
  from Suc.prems(3) have am: "a \<le> m" by simp
  let ?q = "w\<lparr>requests := requests w @ [u]\<rparr>"
  let ?w1 = "if a < m then sleep_ms (d * 2 ^ nat a) ?q else ?q"
  have step: "retry_from (fetch_attempt env u) sleep_ms m d a e w
              = retry_from (fetch_attempt env u) sleep_ms m d (a + 1) err ?w1"
    using am assms(4) by (subst retry_from.simps) (simp add: fetch_attempt_outcome)
  have n: "n = nat (m + 1 - (a + 1))" using Suc.prems(3) by simp
  have IH: "retry_from (fetch_attempt env u) sleep_ms m d (a + 1) err ?w1
        = (Inl (if n = 0 then err else err),
           ?w1\<lparr>requests := requests ?w1 @ replicate n u,
             sleeps := sleeps ?w1 @ map (\<lambda>i. d * 2 ^ (nat (a + 1) + i)) [0..<n - 1]\<rparr>)"
    by (rule Suc.IH) (use Suc.prems am n in auto)
  have rq: "requests ?w1 @ replicate n u = requests w @ replicate (Suc n) u"
    by (simp add: sleep_ms_def replicate_append_same)
  have dl: "sleeps ?w1 @ map (\<lambda>i. d * 2 ^ (nat (a + 1) + i)) [0..<n - 1]
            = sleeps w @ map (\<lambda>i. d * 2 ^ (nat a + i)) [0..<Suc n - 1]"
  proof (cases "a < m")
    case True
    then have "0 < n" using n by simp
    then obtain n' where n': "n = Suc n'" by (cases n) auto
    have "nat (a + 1) = Suc (nat a)" using Suc.prems(1) by simp
    then have "map (\<lambda>i. d * 2 ^ (nat (a + 1) + i)) [0..<n']
               = map (\<lambda>i. d * 2 ^ (nat a + i)) [1..<Suc n']"
      by (simp add: map_Suc_upt [symmetric] del: upt_Suc)
    then show ?thesis using True n'
      by (simp add: sleep_ms_def upt_rec [of 0 "Suc n'"] del: upt_Suc)
  next
    case False
    then have "n = 0" using n am by simp
    then show ?thesis using False by simp
  qed
  have "?w1\<lparr>requests := requests ?w1 @ replicate n u,
             sleeps := sleeps ?w1 @ map (\<lambda>i. d * 2 ^ (nat (a + 1) + i)) [0..<n - 1]\<rparr>
        = w\<lparr>requests := requests w @ replicate (Suc n) u,
             sleeps := sleeps w @ map (\<lambda>i. d * 2 ^ (nat a + i)) [0..<Suc n - 1]\<rparr>"
    unfolding rq dl by (simp add: sleep_ms_def)
  then show ?case unfolding step IH by simp
qed

lemma downloadFont_exhausted:
  assumes "0 \<le> maxRetries os" and "\<forall>h. outcome_of (net env h u) = Inl err"
  shows "downloadFont env u os w
         = (Inl err,
            w\<lparr>requests := requests w @ replicate (Suc (nat (maxRetries os))) u,
              sleeps := sleeps w @ map (\<lambda>n. retryDelay os * 2 ^ (n - 1))
                                     [1..<Suc (nat (maxRetries os))]\<rparr>)"
proof -
  have shift: "map (\<lambda>i. retryDelay os * 2 ^ (nat 0 + i)) [0..<n]
               = map (\<lambda>n. retryDelay os * 2 ^ (n - 1)) [1..<Suc n]" for n
    by (simp add: map_Suc_upt [symmetric] del: upt_Suc)
  have "retry_from (fetch_attempt env u) sleep_ms (maxRetries os) (retryDelay os) 0
          ThrownUndefined w
        = (Inl (if Suc (nat (maxRetries os)) = 0 then ThrownUndefined else err),
            w\<lparr>requests := requests w @ replicate (Suc (nat (maxRetries os))) u,
              sleeps := sleeps w @ map (\<lambda>i. retryDelay os * 2 ^ (nat 0 + i))
                                     [0..<Suc (nat (maxRetries os)) - 1]\<rparr>)"
    by (rule retry_fetch_exhausted) (use assms in auto)
  then show ?thesis
    unfolding downloadFont_def retryWithBackoff_def using shift [of "nat (maxRetries os)"]
    by simp
qed


lemma downloadFont_first_try:
  assumes "0 \<le> maxRetries os" and "outcome_of (net env (requests w) u) = Inr body"
  shows "downloadFont env u os w = (Inr body, w\<lparr>requests := requests w @ [u]\<rparr>)"
  unfolding downloadFont_def retryWithBackoff_def
  using assms by (subst retry_from.simps) (simp add: fetch_attempt_outcome)

lemma retry_fetch_frame:
  "retry_from (fetch_attempt env u) sleep_ms m d a e w = (r, w')
   \<Longrightarrow> astro w' = astro w \<and> fonts_dir w' = fonts_dir w \<and> console w' = console w"
proof (induction "nat (m + 1 - a)" arbitrary: a e w)
  case 0
  then have "\<not> a \<le> m" by simp
  with 0 show ?case by (subst (asm) retry_from.simps) auto
next
  case (Suc n)
  then have am: "a \<le> m" by simp
  let ?q = "w\<lparr>requests := requests w @ [u]\<rparr>"
  show ?case
  proof (cases "outcome_of (net env (requests w) u)")
    case (Inr body)
    with Suc.prems am show ?thesis
      by (subst (asm) retry_from.simps) (auto simp: fetch_attempt_outcome)
  next
    case (Inl err)
    let ?w1 = "if a < m then sleep_ms (d * 2 ^ nat a) ?q else ?q"
    from Suc.prems am Inl
    have "retry_from (fetch_attempt env u) sleep_ms m d (a + 1) err ?w1 = (r, w')"
      by (subst (asm) retry_from.simps) (simp add: fetch_attempt_outcome)
    moreover have "n = nat (m + 1 - (a + 1))" using Suc.hyps(2) by simp
    ultimately have "astro w' = astro ?w1 \<and> fonts_dir w' = fonts_dir ?w1 \<and> console w' = console ?w1"
      by (rule Suc.hyps(1) [rotated])
    then show ?thesis by (simp add: sleep_ms_def)
  qed
qed

lemma downloadFont_frame:
  "downloadFont env u os w = (r, w')
   \<Longrightarrow> astro w' = astro w \<and> fonts_dir w' = fonts_dir w \<and> console w' = console w"
  unfolding downloadFont_def retryWithBackoff_def by (rule retry_fetch_frame)




subsection \<open>The cache state store\<close>

lemma length_hex256: "length (hex256 w) = 64"
  by (simp add: hex256_def)

lemma generateFontConfigHash_not_Nil: "generateFontConfigHash sha fl \<noteq> []"
  using length_hex256 [of "sha (stringify (JArr (map logical_fields fl)))"]
  by (auto simp: generateFontConfigHash_def)

lemma loadFontCacheState_available:
  assumes "astro w \<noteq> None \<or> \<not> fs_fails env MkdirAstro"
  shows "fst (loadFontCacheState env w) = Inr (cached_state w)"
  using assms
  by (auto simp: loadFontCacheState_def getFontCacheStatePath_def cached_state_def
      split: option.splits state_file.splits)

lemma loadFontCacheState_frame:
  "loadFontCacheState env w = (r, w') \<Longrightarrow>
     requests w' = requests w \<and> sleeps w' = sleeps w \<and> fonts_dir w' = fonts_dir w"
  by (auto simp: loadFontCacheState_def getFontCacheStatePath_def
      split: option.splits state_file.splits if_splits sum.splits)

text \<open>
  Claim C5, as the code has it. When the directory \<^verbatim>\<open>./.astro\<close> exists or can be created,
  \<^verbatim>\<open>loadFontCacheState\<close> never throws: it returns the manifest on disk, and for a missing or
  unparseable state file the fresh manifest (no \<^verbatim>\<open>lastSync\<close>, no \<^verbatim>\<open>configHash\<close>, no
  fonts, version \<^verbatim>\<open>1.0.0\<close>), with a warning in the unparseable case. Under the same
  condition \<^verbatim>\<open>saveFontCacheState\<close> never throws for any state: a failing write is caught
  and logged; a write that succeeds stores the state.
\<close>

theorem state_store_total_when_directory_available:
  assumes "astro w \<noteq> None \<or> \<not> fs_fails env MkdirAstro"
  shows "fst (loadFontCacheState env w)
           = Inr (case astro w of
                    Some (Manifest m) \<Rightarrow> m
                  | _ \<Rightarrow> \<lparr>lastSync = None, configHash = None, fonts = [], version = ''1.0.0''\<rparr>)
         \<and> (astro w = Some Unparseable \<longrightarrow>
              console (snd (loadFontCacheState env w)) = console w @ [InvalidCacheState])
         \<and> fst (saveFontCacheState env st w) = Inr ()
         \<and> (fs_fails env WriteState \<longrightarrow>
              console (snd (saveFontCacheState env st w)) = console w @ [SaveStateError])
         \<and> (\<not> fs_fails env WriteState \<longrightarrow>
              astro (snd (saveFontCacheState env st w)) = Some (Manifest st))"
  using assms
  by (auto simp: loadFontCacheState_def saveFontCacheState_def getFontCacheStatePath_def
      fresh_state_def Let_def split: option.splits state_file.splits)

theorem state_store_total_when_directory_available_witness:
  "fst (loadFontCacheState (quiet_env\<lparr>fs_fails := (\<lambda>c. c = WriteState)\<rparr>)
          (empty_world\<lparr>astro := Some Unparseable\<rparr>))
     = Inr \<lparr>lastSync = None, configHash = None, fonts = [], version = ''1.0.0''\<rparr>
   \<and> console (snd (loadFontCacheState (quiet_env\<lparr>fs_fails := (\<lambda>c. c = WriteState)\<rparr>)
          (empty_world\<lparr>astro := Some Unparseable\<rparr>))) = [InvalidCacheState]
   \<and> saveFontCacheState (quiet_env\<lparr>fs_fails := (\<lambda>c. c = WriteState)\<rparr>) fresh_state
          (empty_world\<lparr>astro := Some Unparseable\<rparr>)
     = (Inr (), empty_world\<lparr>astro := Some Unparseable, console := [SaveStateError]\<rparr>)"
  using state_store_total_when_directory_available
    [of "empty_world\<lparr>astro := Some Unparseable\<rparr>" "quiet_env\<lparr>fs_fails := (\<lambda>c. c = WriteState)\<rparr>"
        fresh_state]
  by (simp add: quiet_env_def empty_world_def saveFontCacheState_def getFontCacheStatePath_def)

text \<open>
  Claim C5 as stated fails: \<^verbatim>\<open>getFontCacheStatePath\<close> runs before the \<^verbatim>\<open>try\<close> of both
  functions, so when \<^verbatim>\<open>./.astro\<close> is missing and cannot be created both throw.
\<close>

theorem state_store_raises_without_directory:
  "fst (loadFontCacheState readonly_env empty_world) = Inl (FsError MkdirAstro)
   \<and> fst (saveFontCacheState readonly_env fresh_state empty_world) = Inl (FsError MkdirAstro)"
  by (simp add: loadFontCacheState_def saveFontCacheState_def getFontCacheStatePath_def
      readonly_env_def quiet_env_def empty_world_def)

text \<open>
  Claim C6, as the code has it. The manifest carries a \<^verbatim>\<open>version\<close> field, and
  \<^verbatim>\<open>loadFontCacheState\<close> never reads it: a parseable manifest is returned as it is,
  whatever its version, and the world is left as it was.
\<close>

theorem load_returns_manifest_of_any_version:
  "astro w = Some (Manifest m) \<Longrightarrow> loadFontCacheState env w = (Inr m, w)"
  by (simp add: loadFontCacheState_def getFontCacheStatePath_def)

theorem load_returns_manifest_of_any_version_witness:
  "loadFontCacheState quiet_env old_version_world
   = (Inr \<lparr>lastSync = Some ''2024-01-01T00:00:00.000Z'', configHash = Some ''0f'',
           fonts = [inter_entry], version = ''0.9.0''\<rparr>, old_version_world)"
  using load_returns_manifest_of_any_version
    [of old_version_world "\<lparr>lastSync = Some ''2024-01-01T00:00:00.000Z'', configHash = Some ''0f'',
           fonts = [inter_entry], version = ''0.9.0''\<rparr>" quiet_env]
  by (simp add: old_version_world_def empty_world_def)

text \<open>
  Claim C6 as stated fails: a manifest of the older version \<^verbatim>\<open>0.9.0\<close> is loaded with its
  entries, not as the fresh state.
\<close>

theorem older_version_is_not_treated_as_empty:
  "version (cached_state old_version_world) = ''0.9.0''
   \<and> fst (loadFontCacheState quiet_env old_version_world) \<noteq> Inr fresh_state
   \<and> (case fst (loadFontCacheState quiet_env old_version_world) of
         Inr m \<Rightarrow> fonts m = [inter_entry] | Inl e \<Rightarrow> False)"
  by (simp add: loadFontCacheState_def getFontCacheStatePath_def old_version_world_def
      empty_world_def cached_state_def fresh_state_def)

subsection \<open>The cache hit\<close>

lemma cache_hit_run:
  assumes "cache_hit env fl w" and "\<not> fs_fails env (WriteFile ''fonts.json'')"
  shows "downloadFontsWithCache env fl os w
         = (Inr (fonts (cached_state w)),
            w\<lparr>fonts_dir := Some (AList.update ''fonts.json'' (FontsJson (fonts (cached_state w)))
                                  (the (fonts_dir w)))\<rparr>)"
proof -
  from assms(1) obtain files where files: "fonts_dir w = Some files"
    by (auto simp: cache_hit_def)
  from assms(1) obtain m where m: "astro w = Some (Manifest m)"
    by (auto simp: cache_hit_def cached_state_def fresh_state_def
        split: option.splits state_file.splits)
  have cs: "cached_state w = m" using m by (simp add: cached_state_def)
  have ld: "loadFontCacheState env w = (Inr m, w)"
    using m by (simp add: loadFontCacheState_def getFontCacheStatePath_def)
  have en: "ensure_fonts_dir env w = Inr w" using files by (simp add: ensure_fonts_dir_def)
  have wr: "writeFile env ''fonts.json'' (FontsJson (fonts m)) w
            = (Inr (), w\<lparr>fonts_dir := Some (AList.update ''fonts.json'' (FontsJson (fonts m)) files)\<rparr>)"
    using files assms(2) by (simp add: writeFile_def)
  from assms(1) have c: "\<not> hasFontConfigChanged (sha256 env) fl m" "fonts m \<noteq> []"
      "allFilesExist w (fonts m)"
    unfolding cache_hit_def cs by auto
  show ?thesis
    unfolding downloadFontsWithCache_def cs using c by (simp add: en ld wr files)
qed

text \<open>
  Claim C1, as the code has it. On a cache hit (the fingerprint of the fonts equals the
  cached \<^verbatim>\<open>configHash\<close>, the cached list is not empty, every recorded file exists) and with
  \<^verbatim>\<open>fonts.json\<close> writable, \<^verbatim>\<open>downloadFontsWithCache\<close> returns the cached list unchanged and
  changes nothing but \<^verbatim>\<open>fonts.json\<close>, which it rewrites from the cached list: no request is
  sent, no delay awaited, and the state file is not touched, so no timestamp in it is
  refreshed.
\<close>

theorem cache_hit_downloads_nothing:
  assumes "cache_hit env fl w" and "\<not> fs_fails env (WriteFile ''fonts.json'')"
  shows "downloadFontsWithCache env fl os w
         = (Inr (fonts (cached_state w)),
            w\<lparr>fonts_dir := Some (AList.update ''fonts.json'' (FontsJson (fonts (cached_state w)))
                                  (the (fonts_dir w)))\<rparr>)"
  using assms by (rule cache_hit_run)

lemma cached_world_hit: "cache_hit quiet_env inter_fonts cached_world"
  by (simp add: cache_hit_def cached_world_def cached_state_def empty_world_def
      hasFontConfigChanged_def generateFontConfigHash_not_Nil allFilesExist_def
      cached_file_exists_def inter_entry_def basename_def)

theorem cache_hit_downloads_nothing_witness:
  "downloadFontsWithCache quiet_env inter_fonts no_options cached_world
   = (Inr [inter_entry],
      cached_world\<lparr>fonts_dir := Some [(''inter.woff'', FontBytes ''wOFF''),
                                       (''fonts.json'', FontsJson [inter_entry])]\<rparr>)"
  using cache_hit_downloads_nothing [OF cached_world_hit, of no_options]
  by (simp add: quiet_env_def cached_world_def cached_state_def empty_world_def)

text \<open>
  Claim C1 as stated fails in its last part: after a cache hit the manifest still has the
  \<^verbatim>\<open>lastSync\<close> of the earlier build, not the time of this one.
\<close>

theorem cache_hit_refreshes_no_timestamp:
  "cache_hit quiet_env inter_fonts cached_world
   \<and> lastSync (cached_state (snd (downloadFontsWithCache quiet_env inter_fonts no_options
        cached_world))) = Some ''2025-01-01T00:00:00.000Z''
   \<and> now quiet_env = ''2025-06-01T00:00:00.000Z''"
  using cached_world_hit
  by (simp add: cache_hit_run quiet_env_def)
     (simp add: cached_state_def cached_world_def empty_world_def)

subsection \<open>The download run\<close>

lemma cached_file_exists_mono:
  assumes "fonts_dir w \<noteq> None" "fonts_dir w' \<noteq> None" "file_names w \<subseteq> file_names w'"
    and "cached_file_exists w p"
  shows "cached_file_exists w' p"
  using assms
  by (auto simp: cached_file_exists_def file_names_def map_of_eq_None_iff
      split: option.splits)

lemma allFilesExist_mono:
  assumes "fonts_dir w \<noteq> None" "fonts_dir w' \<noteq> None" "file_names w \<subseteq> file_names w'"
    and "allFilesExist w es"
  shows "allFilesExist w' es"
  using assms(4) cached_file_exists_mono [OF assms(1-3)]
  by (auto simp: allFilesExist_def list_all_iff)

lemma cached_file_exists_cong:
  "fonts_dir w = fonts_dir w' \<Longrightarrow> cached_file_exists w p = cached_file_exists w' p"
  by (simp add: cached_file_exists_def cong: option.case_cong)

lemma allFilesExist_cong:
  "fonts_dir w = fonts_dir w' \<Longrightarrow> allFilesExist w es = allFilesExist w' es"
  by (simp add: allFilesExist_def cached_file_exists_cong [of w w'])

lemma writeFile_frame:
  assumes "writeFile env n c w = (r, w')"
  shows "astro w' = astro w" "console w' = console w" "requests w' = requests w"
    "sleeps w' = sleeps w" "fonts_dir w \<noteq> None \<Longrightarrow> fonts_dir w' \<noteq> None"
    "file_names w \<subseteq> file_names w'"
proof -
  show "astro w' = astro w" "console w' = console w" "requests w' = requests w"
    "sleeps w' = sleeps w" "fonts_dir w \<noteq> None \<Longrightarrow> fonts_dir w' \<noteq> None"
    using assms by (auto simp: writeFile_def split: option.splits if_splits)
  have "fonts_dir w' = fonts_dir w
        \<or> (\<exists>files c'. fonts_dir w = Some files \<and> fonts_dir w' = Some (AList.update n c' files))"
    using assms by (auto simp: writeFile_def split: option.splits if_splits)
  then show "file_names w \<subseteq> file_names w'"
    by (auto simp: file_names_def dom_update)
qed

lemma writeFile_Inr:
  assumes "writeFile env n c w = (Inr u, w')"
  shows "fonts_dir w \<noteq> None" "fonts_dir w' \<noteq> None" "file_names w' = insert n (file_names w)"
    "astro w' = astro w" "console w' = console w" "requests w' = requests w"
    "sleeps w' = sleeps w" "n \<notin> {[], ''.'', ''..''}"
    "map_of (the (fonts_dir w')) n = Some c"
proof -
  from assms obtain files where f: "fonts_dir w = Some files"
    and w': "w' = w\<lparr>fonts_dir := Some (AList.update n c files)\<rparr>"
    and n: "n \<notin> {[], ''.'', ''..''}"
    by (auto simp: writeFile_def split: option.splits if_splits)
  show "fonts_dir w \<noteq> None" using f by simp
  show "fonts_dir w' \<noteq> None" using w' by simp
  show "file_names w' = insert n (file_names w)"
    using f w' by (simp add: file_names_def dom_update)
  show "astro w' = astro w" "console w' = console w" "requests w' = requests w"
    "sleeps w' = sleeps w" using w' by simp_all
  show "n \<notin> {[], ''.'', ''..''}" by (rule n)
  show "map_of (the (fonts_dir w')) n = Some c" using w' by (simp add: update_conv')
qed

lemma writeFile_succeeds:
  assumes "fonts_dir w \<noteq> None" "n \<notin> {[], ''.'', ''..''}" "\<not> fs_fails env (WriteFile n)"
  shows "\<exists>w'. writeFile env n c w = (Inr (), w')"
  using assms by (auto simp: writeFile_def)


lemma basename_no_slash: "CHR ''/'' \<notin> set (basename s)"
  by (auto simp: basename_def dest: set_takeWhileD)

lemma basename_fonts_path:
  assumes "basename s \<noteq> []"
  shows "basename (''/fonts/'' @ basename s) = basename s"
proof -
  define b where "b = basename s"
  have ne: "rev b \<noteq> []" and ns: "\<forall>c\<in>set (rev b). c \<noteq> CHR ''/''"
    using assms basename_no_slash [of s] by (auto simp: b_def)
  then obtain c cs where cs: "rev b = c # cs" by (cases "rev b") auto
  with ns have c: "c \<noteq> CHR ''/''" by simp
  have dw: "dropWhile (\<lambda>c. c = CHR ''/'') (rev b @ rev ''/fonts/'') = rev b @ rev ''/fonts/''"
    using cs c by simp
  have tw: "takeWhile (\<lambda>c. c \<noteq> CHR ''/'') (rev b @ rev ''/fonts/'')
            = rev b @ takeWhile (\<lambda>c. c \<noteq> CHR ''/'') (rev ''/fonts/'')"
    by (rule takeWhile_append2) (use ns in auto)
  have "basename (''/fonts/'' @ b)
        = rev (takeWhile (\<lambda>c. c \<noteq> CHR ''/'')
                (dropWhile (\<lambda>c. c = CHR ''/'') (rev b @ rev ''/fonts/'')))"
    unfolding basename_def rev_append ..
  also have "\<dots> = rev (rev b @ takeWhile (\<lambda>c. c \<noteq> CHR ''/'') (rev ''/fonts/''))"
    by (simp only: dw tw)
  also have "\<dots> = b" by simp
  finally show ?thesis by (simp only: b_def)
qed

lemma catch_format_frame:
  assumes "catch_format ev e w = (r, w')"
  shows "fonts_dir w' = fonts_dir w" "astro w' = astro w" "requests w' = requests w"
    "set (console w) \<subseteq> set (console w')" "r \<noteq> Inr (Some p)"
  using assms by (auto simp: catch_format_def split: if_splits)

lemma catch_format_logs:
  "e \<noteq> ThrownUndefined \<Longrightarrow> catch_format ev e w = (Inr None, w\<lparr>console := console w @ [ev]\<rparr>)"
  by (simp add: catch_format_def)

text \<open>
  The three ways in which one format ends: it is not tried, it is caught, or it is
  stored.
\<close>

lemma download_format_cases:
  assumes "download_format env os ev url w = (r, w')"
  obtains (untried) "url = None \<or> (\<exists>u. url = Some u \<and> \<not> truthy u)" "r = Inr None" "w' = w"
  | (fetch_failed) u e w1 where "url = Some u" "truthy u"
      "downloadFont env u os w = (Inl e, w1)" "catch_format ev e w1 = (r, w')"
  | (not_a_string) u buffer w1 where "url = Some u" "truthy u" "\<forall>s. u \<noteq> JStr s"
      "downloadFont env u os w = (Inr buffer, w1)" "catch_format ev TypeError w1 = (r, w')"
  | (write_failed) s buffer w1 e w2 where "url = Some (JStr s)" "s \<noteq> []"
      "downloadFont env (JStr s) os w = (Inr buffer, w1)"
      "writeFile env (basename s) (FontBytes buffer) w1 = (Inl e, w2)"
      "catch_format ev e w2 = (r, w')"
  | (stored) s buffer w1 where "url = Some (JStr s)" "s \<noteq> []"
      "downloadFont env (JStr s) os w = (Inr buffer, w1)"
      "writeFile env (basename s) (FontBytes buffer) w1 = (Inr (), w')"
      "r = Inr (Some (''/fonts/'' @ basename s))"
proof (cases url)
  case None
  with assms untried show ?thesis by (simp add: download_format_def)
next
  case (Some u)
  show ?thesis
  proof (cases "truthy u")
    case False
    with assms Some untried show ?thesis by (simp add: download_format_def)
  next
    case True
    obtain d w1 where d: "downloadFont env u os w = (d, w1)" by (cases "downloadFont env u os w")
    show ?thesis
    proof (cases d)
      case (Inl e)
      with assms Some True d have "catch_format ev e w1 = (r, w')"
        by (simp add: download_format_def)
      with fetch_failed Some True d Inl show ?thesis by blast
    next
      case (Inr buffer)
      show ?thesis
      proof (cases "\<exists>s. u = JStr s")
        case False
        with assms Some True d Inr have "catch_format ev TypeError w1 = (r, w')"
          by (cases u) (simp_all add: download_format_def)
        with not_a_string Some True d Inr False show ?thesis by blast
      next
        case str: True
        then obtain s where s: "u = JStr s" by blast
        with True have ne: "s \<noteq> []" by simp
        obtain x w2 where wr: "writeFile env (basename s) (FontBytes buffer) w1 = (x, w2)"
          by (cases "writeFile env (basename s) (FontBytes buffer) w1")
        show ?thesis
        proof (cases x)
          case (Inl e)
          with assms Some True d \<open>d = Inr buffer\<close> s wr
          have "catch_format ev e w2 = (r, w')" by (simp add: download_format_def)
          with write_failed [of s buffer w1 e w2] Some s ne d \<open>d = Inr buffer\<close> wr Inl
          show ?thesis by simp
        next
          case (Inr y)
          with assms Some True d \<open>d = Inr buffer\<close> s wr
          have "r = Inr (Some (''/fonts/'' @ basename s))" "w' = w2"
            by (simp_all add: download_format_def)
          with stored [of s buffer w1] Some s ne d \<open>d = Inr buffer\<close> wr Inr
          show ?thesis by simp
        qed
      qed
    qed
  qed
qed

lemma download_format_frame:
  assumes "download_format env os ev url w = (r, w')" and "fonts_dir w \<noteq> None"
  shows "fonts_dir w' \<noteq> None \<and> file_names w \<subseteq> file_names w' \<and> astro w' = astro w
         \<and> set (console w) \<subseteq> set (console w')
         \<and> (\<forall>p. r = Inr (Some p) \<longrightarrow> cached_file_exists w' (Some p))"
  using assms(1)
proof (cases rule: download_format_cases)
  case untried
  with assms(2) show ?thesis by simp
next
  case (fetch_failed u e w1)
  note fr = downloadFont_frame [OF fetch_failed(3)]
  note cf = catch_format_frame [OF fetch_failed(4)]
  have "file_names w' = file_names w" using fr cf by (simp add: file_names_def)
  then show ?thesis using fr cf assms(2) by auto
next
  case (not_a_string u buffer w1)
  note fr = downloadFont_frame [OF not_a_string(4)]
  note cf = catch_format_frame [OF not_a_string(5)]
  have "file_names w' = file_names w" using fr cf by (simp add: file_names_def)
  then show ?thesis using fr cf assms(2) by auto
next
  case (write_failed s buffer w1 e w2)
  note fr = downloadFont_frame [OF write_failed(3)]
  note wf = writeFile_frame [OF write_failed(4)]
  note cf = catch_format_frame [OF write_failed(5)]
  have "file_names w1 = file_names w" "file_names w' = file_names w2"
    using fr cf by (simp_all add: file_names_def)
  then have "file_names w \<subseteq> file_names w'" using wf(6) by simp
  moreover have "fonts_dir w' \<noteq> None" using wf(5) fr cf(1) assms(2) by simp
  moreover have "astro w' = astro w" using wf(1) fr cf(2) by simp
  moreover have "set (console w) \<subseteq> set (console w')" using wf(2) fr cf(4) by simp
  ultimately show ?thesis using cf(5) by auto
next
  case (stored s buffer w1)
  note fr = downloadFont_frame [OF stored(3)]
  note wf = writeFile_Inr [OF stored(4)]
  have "file_names w1 = file_names w" using fr by (simp add: file_names_def)
  have "basename s \<noteq> []" using wf(8) by simp
  then have bn: "basename (''/fonts/'' @ basename s) = basename s"
    by (rule basename_fonts_path)
  have "cached_file_exists w' (Some p)" if "basename p = basename s" for p
    using wf(2,9) that by (auto simp: cached_file_exists_def)
  from this [OF bn] show ?thesis
    using stored(5) wf fr \<open>file_names w1 = file_names w\<close> by auto
qed

text \<open>The two ways in which one font ends when nothing is thrown, and the ways it throws.\<close>

lemma process_font_cases:
  assumes "process_font env os font w = (r, w')"
  obtains (first_throws) e where
      "download_format env os (FailedWoff (prop_of font ''name'')) (prop_of font ''url1'') w
       = (Inl e, w')" "r = Inl e"
  | (second_throws) p1 w1 e where
      "download_format env os (FailedWoff (prop_of font ''name'')) (prop_of font ''url1'') w
       = (Inr p1, w1)"
      "download_format env os (FailedWoff2 (prop_of font ''name'')) (prop_of font ''url2'') w1
       = (Inl e, w')" "r = Inl e"
  | (kept) p1 w1 p2 where
      "download_format env os (FailedWoff (prop_of font ''name'')) (prop_of font ''url1'') w
       = (Inr p1, w1)"
      "download_format env os (FailedWoff2 (prop_of font ''name'')) (prop_of font ''url2'') w1
       = (Inr p2, w')"
      "p1 \<noteq> None \<or> p2 \<noteq> None"
      "r = Inr (Some \<lparr>name = prop_of font ''name'', woff = p1, woff2 = p2\<rparr>)"
  | (skipped) w1 w2 where
      "download_format env os (FailedWoff (prop_of font ''name'')) (prop_of font ''url1'') w
       = (Inr None, w1)"
      "download_format env os (FailedWoff2 (prop_of font ''name'')) (prop_of font ''url2'') w1
       = (Inr None, w2)"
      "r = Inr None" "w' = w2\<lparr>console := console w2 @ [SkippingFont (prop_of font ''name'')]\<rparr>"
proof -
  let ?n = "prop_of font ''name''"
  obtain x1 w1 where a: "download_format env os (FailedWoff ?n) (prop_of font ''url1'') w = (x1, w1)"
    by (cases "download_format env os (FailedWoff ?n) (prop_of font ''url1'') w")
  show ?thesis
  proof (cases x1)
    case (Inl e)
    with assms a have "r = Inl e" "w' = w1" by (simp_all add: process_font_def Let_def)
    with first_throws a Inl show ?thesis by simp
  next
    case p1: (Inr p1)
    obtain x2 w2 where
      b: "download_format env os (FailedWoff2 ?n) (prop_of font ''url2'') w1 = (x2, w2)"
      by (cases "download_format env os (FailedWoff2 ?n) (prop_of font ''url2'') w1")
    show ?thesis
    proof (cases x2)
      case (Inl e)
      with assms a p1 b have "r = Inl e" "w' = w2" by (simp_all add: process_font_def Let_def)
      with second_throws [of p1 w1 e] a p1 b Inl show ?thesis by simp
    next
      case p2: (Inr p2)
      show ?thesis
      proof (cases "p1 \<noteq> None \<or> p2 \<noteq> None")
        case True
        with assms a p1 b p2
        have "r = Inr (Some \<lparr>name = ?n, woff = p1, woff2 = p2\<rparr>)" "w' = w2"
          by (auto simp: process_font_def Let_def)
        with kept [of p1 w1 p2] a p1 b p2 True show ?thesis by simp
      next
        case False
        with assms a p1 b p2
        have "r = Inr None" "w' = w2\<lparr>console := console w2 @ [SkippingFont ?n]\<rparr>"
          by (auto simp: process_font_def Let_def)
        with skipped [of w1 w2] a p1 b p2 False show ?thesis by simp
      qed
    qed
  qed
qed

lemma process_font_frame:
  assumes "process_font env os font w = (r, w')" and "fonts_dir w \<noteq> None"
  shows "fonts_dir w' \<noteq> None \<and> file_names w \<subseteq> file_names w' \<and> astro w' = astro w
         \<and> set (console w) \<subseteq> set (console w')
         \<and> (\<forall>e. r = Inr (Some e) \<longrightarrow>
               cached_file_exists w' (woff e) \<and> cached_file_exists w' (woff2 e))"
  using assms(1)
proof (cases rule: process_font_cases)
  case (first_throws e)
  from download_format_frame [OF first_throws(1) assms(2)] first_throws(2)
  show ?thesis by simp
next
  case (second_throws p1 w1 e)
  note fa = download_format_frame [OF second_throws(1) assms(2)]
  then have d1: "fonts_dir w1 \<noteq> None" by simp
  note fb = download_format_frame [OF second_throws(2) d1]
  have "file_names w \<subseteq> file_names w'" "astro w' = astro w"
    "set (console w) \<subseteq> set (console w')"
    using fa fb by auto
  then show ?thesis using fb second_throws(3) by simp
next
  case (kept p1 w1 p2)
  note fa = download_format_frame [OF kept(1) assms(2)]
  then have d1: "fonts_dir w1 \<noteq> None" by simp
  note fb = download_format_frame [OF kept(2) d1]
  have e1: "cached_file_exists w' p1"
  proof (cases p1)
    case None
    then show ?thesis by (simp add: cached_file_exists_def)
  next
    case (Some p)
    with fa have "cached_file_exists w1 (Some p)" by simp
    then show ?thesis using Some cached_file_exists_mono [of w1 w'] d1 fb by simp
  qed
  have e2: "cached_file_exists w' p2"
    using fb by (cases p2) (simp_all add: cached_file_exists_def)
  have "file_names w \<subseteq> file_names w'" "astro w' = astro w"
    "set (console w) \<subseteq> set (console w')"
    using fa fb by auto
  then show ?thesis using fb kept(4) e1 e2 by simp
next
  case (skipped w1 w2)
  note fa = download_format_frame [OF skipped(1) assms(2)]
  then have d1: "fonts_dir w1 \<noteq> None" by simp
  note fb = download_format_frame [OF skipped(2) d1]
  have "file_names w' = file_names w2" using skipped(4) by (simp add: file_names_def)
  then have "file_names w \<subseteq> file_names w'" using fa fb by auto
  moreover have "astro w' = astro w" "set (console w) \<subseteq> set (console w')"
    "fonts_dir w' \<noteq> None"
    using fa fb skipped(4) by auto
  ultimately show ?thesis using skipped(3) by simp
qed

text \<open>One turn of the loop.\<close>

lemma download_loop_step:
  assumes "process_font env os font w = (Inr r, w1)"
  shows "download_loop env os (font # rest) acc w
         = download_loop env os rest (case r of Some e \<Rightarrow> acc @ [e] | None \<Rightarrow> acc)
             (if rest \<noteq> [] then sleep_ms 100 w1 else w1)"
  unfolding download_loop.simps assms sum.case prod.case ..

lemma download_loop_throws:
  assumes "process_font env os font w = (Inl e, w1)"
  shows "download_loop env os (font # rest) acc w = (Inl e, w1)"
  unfolding download_loop.simps assms sum.case prod.case ..

lemma download_loop_frame:
  assumes "download_loop env os fl acc w = (r, w')" and "fonts_dir w \<noteq> None"
  shows "fonts_dir w' \<noteq> None \<and> file_names w \<subseteq> file_names w' \<and> astro w' = astro w
         \<and> set (console w) \<subseteq> set (console w')
         \<and> (\<forall>data. r = Inr data \<longrightarrow> allFilesExist w acc \<longrightarrow> allFilesExist w' data)"
  using assms
proof (induction fl arbitrary: acc w)
  case Nil
  then show ?case by auto
next
  case (Cons font rest)
  obtain x w1 where p: "process_font env os font w = (x, w1)"
    by (cases "process_font env os font w")
  note pf = process_font_frame [OF p Cons.prems(2)]
  show ?case
  proof (cases x)
    case (Inl e)
    with Cons.prems(1) p have "r = Inl e" "w' = w1" by (simp_all add: download_loop_throws)
    with pf show ?thesis by simp
  next
    case (Inr q)
    define acc1 where "acc1 = (case q of Some e \<Rightarrow> acc @ [e] | None \<Rightarrow> acc)"
    define w2 where "w2 = (if rest \<noteq> [] then sleep_ms 100 w1 else w1)"
    have run: "download_loop env os rest acc1 w2 = (r, w')"
      using Cons.prems(1) p Inr by (simp only: download_loop_step acc1_def w2_def)
    have f2: "fonts_dir w2 = fonts_dir w1" and a2: "astro w2 = astro w1"
      and c2: "console w2 = console w1"
      by (simp_all add: w2_def sleep_ms_def)
    have n2: "file_names w2 = file_names w1" by (simp add: file_names_def f2)
    have d1: "fonts_dir w1 \<noteq> None" and n1: "file_names w \<subseteq> file_names w1"
      and a1: "astro w1 = astro w" and c1: "set (console w) \<subseteq> set (console w1)"
      using pf by blast+
    have d2: "fonts_dir w2 \<noteq> None" using d1 f2 by simp
    have acc2: "allFilesExist w2 acc1" if acc: "allFilesExist w acc"
    proof -
      have old: "allFilesExist w1 acc"
        by (rule allFilesExist_mono [OF Cons.prems(2) d1 n1 acc])
      have "allFilesExist w1 acc1"
      proof (cases q)
        case None
        then show ?thesis using old by (simp add: acc1_def)
      next
        case (Some e)
        then have "cached_file_exists w1 (woff e) \<and> cached_file_exists w1 (woff2 e)"
          using pf Inr by blast
        then show ?thesis using old Some by (simp add: acc1_def allFilesExist_def)
      qed
      then show ?thesis by (simp only: allFilesExist_cong [OF f2])
    qed
    note ih = Cons.IH [OF run d2]
    have "file_names w \<subseteq> file_names w'" using ih n1 n2 by auto
    moreover have "set (console w) \<subseteq> set (console w')" using ih c1 c2 by auto
    moreover have "astro w' = astro w" using ih a1 a2 by simp
    ultimately show ?thesis using ih acc2 by simp
  qed
qed

lemma unlink_all_frame:
  "unlink_all env names w = (r, w') \<Longrightarrow> fonts_dir w \<noteq> None
   \<Longrightarrow> fonts_dir w' \<noteq> None \<and> astro w' = astro w \<and> console w' = console w
       \<and> requests w' = requests w \<and> (\<forall>e. r = Inl e \<longrightarrow> (\<exists>c. e = FsError c \<and> fs_fails env c))"
proof (induction names arbitrary: w)
  case Nil
  then show ?case by auto
next
  case (Cons f fs)
  show ?case
  proof (cases "f \<noteq> ''fonts.json''")
    case True
    let ?w1 = "w\<lparr>fonts_dir := map_option (AList.delete f) (fonts_dir w)\<rparr>"
    show ?thesis
    proof (cases "fs_fails env (Unlink f)")
      case fails: True
      with Cons.prems True show ?thesis by auto
    next
      case False
      with Cons.prems(1) True have run: "unlink_all env fs ?w1 = (r, w')" by simp
      have "fonts_dir ?w1 \<noteq> None" using Cons.prems(2) by auto
      from Cons.IH [OF run this] show ?thesis by simp
    qed
  next
    case False
    with Cons.prems(1) have "unlink_all env fs w = (r, w')" by simp
    from Cons.IH [OF this Cons.prems(2)] show ?thesis .
  qed
qed

lemma clean_old_fonts_frame:
  assumes "clean_old_fonts env w = (r, w')" and "fonts_dir w \<noteq> None"
  shows "fonts_dir w' \<noteq> None \<and> astro w' = astro w \<and> console w' = console w
         \<and> requests w' = requests w \<and> (\<forall>e. r = Inl e \<longrightarrow> (\<exists>c. e = FsError c \<and> fs_fails env c))"
proof -
  from assms(2) obtain files where f: "fonts_dir w = Some files" by auto
  show ?thesis
  proof (cases "fs_fails env Readdir")
    case True
    with assms(1) f show ?thesis by (auto simp: clean_old_fonts_def)
  next
    case False
    with assms(1) f have "unlink_all env (map fst files) w = (r, w')"
      by (simp add: clean_old_fonts_def)
    from unlink_all_frame [OF this assms(2)] show ?thesis .
  qed
qed

lemma saveFontCacheState_Inr:
  assumes "saveFontCacheState env st w = (Inr u, w')"
  shows "fonts_dir w' = fonts_dir w"
    and "\<not> fs_fails env WriteState \<Longrightarrow> astro w' = Some (Manifest st)"
  using assms
  by (auto simp: saveFontCacheState_def getFontCacheStatePath_def Let_def
      split: option.splits if_splits)

lemma download_fresh_Inr:
  assumes "download_fresh env os fl w = (Inr data, w')" and "\<not> fs_fails env WriteState"
  shows "astro w' = Some (Manifest \<lparr>lastSync = Some (now env),
            configHash = Some (generateFontConfigHash (sha256 env) fl),
            fonts = data, version = ''1.0.0''\<rparr>)
         \<and> fonts_dir w' \<noteq> None \<and> allFilesExist w' data"
proof -
  obtain x1 w1 where c: "clean_old_fonts env w = (x1, w1)" by (cases "clean_old_fonts env w")
  with assms(1) have x1: "x1 = Inr ()"
    by (cases x1) (simp_all add: download_fresh_def)
  obtain x2 w2 where l: "download_loop env os fl [] w1 = (x2, w2)"
    by (cases "download_loop env os fl [] w1")
  with assms(1) c x1 obtain fd where x2: "x2 = Inr fd"
    by (cases x2) (simp_all add: download_fresh_def)
  obtain x3 w3 where wr: "writeFile env ''fonts.json'' (FontsJson fd) w2 = (x3, w3)"
    by (cases "writeFile env ''fonts.json'' (FontsJson fd) w2")
  with assms(1) c x1 l x2 have x3: "x3 = Inr ()"
    by (cases x3) (simp_all add: download_fresh_def)
  let ?st = "\<lparr>lastSync = Some (now env),
            configHash = Some (generateFontConfigHash (sha256 env) fl),
            fonts = fd, version = ''1.0.0''\<rparr>"
  obtain x4 w4 where sv: "saveFontCacheState env ?st w3 = (x4, w4)"
    by (cases "saveFontCacheState env ?st w3")
  with assms(1) c x1 l x2 wr x3 have x4: "x4 = Inr ()" and fd: "fd = data" and w4: "w4 = w'"
    by (cases x4; simp add: download_fresh_def)+
  have d: "fonts_dir w \<noteq> None"
    using c x1 by (auto simp: clean_old_fonts_def split: option.splits)
  note cf = clean_old_fonts_frame [OF c d]
  have "allFilesExist w1 []" by (simp add: allFilesExist_def)
  with download_loop_frame [OF l] cf x2
  have d2: "fonts_dir w2 \<noteq> None" and a2: "allFilesExist w2 fd" by simp_all
  note wf = writeFile_Inr [OF wr [unfolded x3]]
  have a3: "allFilesExist w3 fd"
    by (rule allFilesExist_mono [OF d2 wf(2) _ a2]) (use wf(3) in auto)
  note s = saveFontCacheState_Inr [OF sv [unfolded x4 w4]]
  have "allFilesExist w' fd" using a3 by (simp only: allFilesExist_cong [OF s(1)])
  then show ?thesis using s(1) s(2) [OF assms(2)] wf(2) fd by simp
qed

lemma loadFontCacheState_result:
  assumes "loadFontCacheState env w = (Inr cs, w')"
  shows "cs = cached_state w'" and "fonts_dir w' = fonts_dir w"
  using assms
  by (auto simp: loadFontCacheState_def getFontCacheStatePath_def cached_state_def
      split: option.splits state_file.splits if_splits)

lemma ensure_fonts_dir_Inr:
  "ensure_fonts_dir env w = Inr w' \<Longrightarrow> fonts_dir w' \<noteq> None \<and> astro w' = astro w"
  by (auto simp: ensure_fonts_dir_def split: option.splits if_splits)

lemma cached_state_fonts:
  "fonts (cached_state w) \<noteq> [] \<Longrightarrow> astro w = Some (Manifest (cached_state w))"
  by (auto simp: cached_state_def fresh_state_def split: option.splits state_file.splits)

lemma unchanged_hash:
  "\<not> hasFontConfigChanged sha fl cs \<Longrightarrow> configHash cs = Some (generateFontConfigHash sha fl)"
  by (auto simp: hasFontConfigChanged_def Let_def split: option.splits)

lemma run_leaves_cache:
  assumes run: "downloadFontsWithCache env fl os w = (Inr data, w1)"
    and ws: "\<not> fs_fails env WriteState"
  shows "configHash (cached_state w1) = Some (generateFontConfigHash (sha256 env) fl)
         \<and> fonts (cached_state w1) = data \<and> fonts_dir w1 \<noteq> None \<and> allFilesExist w1 data
         \<and> (data \<noteq> [] \<longrightarrow> astro w1 = Some (Manifest (cached_state w1)))"
proof -
  from run obtain wa where en: "ensure_fonts_dir env w = Inr wa"
    by (auto simp: downloadFontsWithCache_def Let_def split: sum.splits)
  from run en obtain cs wb where ld: "loadFontCacheState env wa = (Inr cs, wb)"
    by (auto simp: downloadFontsWithCache_def Let_def split: sum.splits prod.splits)
  note lr = loadFontCacheState_result [OF ld]
  have db: "fonts_dir wb \<noteq> None" using ensure_fonts_dir_Inr [OF en] lr(2) by simp
  let ?hit = "\<not> hasFontConfigChanged (sha256 env) fl cs \<and> 0 < length (fonts cs)
              \<and> allFilesExist wb (fonts cs)"
  show ?thesis
  proof (cases ?hit)
    case True
    with run en ld have
      wr: "writeFile env ''fonts.json'' (FontsJson (fonts cs)) wb = (Inr (), w1)"
      and res: "data = fonts cs"
      by (auto simp: downloadFontsWithCache_def Let_def split: sum.splits prod.splits)
    note wf = writeFile_Inr [OF wr]
    have cs1: "cached_state w1 = cs" using wf(4) lr(1) by (simp add: cached_state_def)
    have "allFilesExist w1 (fonts cs)"
      by (rule allFilesExist_mono [OF db wf(2)]) (use wf(3) True in auto)
    then show ?thesis
      using True res cs1 wf(2) unchanged_hash [of "sha256 env" fl cs]
        cached_state_fonts [of w1] by auto
  next
    case False
    then have "\<exists>wd. download_fresh env (merge_options os) fl wd = (Inr data, w1)"
      using run en ld
      by (auto simp: downloadFontsWithCache_def Let_def split: if_splits)
    then obtain wd where "download_fresh env (merge_options os) fl wd = (Inr data, w1)" ..
    from download_fresh_Inr [OF this ws] show ?thesis by (simp add: cached_state_def)
  qed
qed

text \<open>
  What the environment decides about a download: with at least one attempt allowed the
  error thrown is that of an attempt; a URL that is never delivered is an error; a URL that
  is always delivered arrives at the first attempt.
\<close>

lemma outcome_of_defined: "outcome_of r \<noteq> Inl ThrownUndefined"
  by (simp add: outcome_of_def split: net_outcome.split)

lemma retry_fetch_defined:
  "a \<le> m \<or> e \<noteq> ThrownUndefined
   \<Longrightarrow> fst (retry_from (fetch_attempt env u) sleep_ms m d a e w) \<noteq> Inl ThrownUndefined"
proof (induction "nat (m + 1 - a)" arbitrary: a e w)
  case 0
  then have "\<not> a \<le> m" by simp
  with 0 show ?case by (subst retry_from.simps) auto
next
  case (Suc n)
  then have am: "a \<le> m" by simp
  let ?q = "w\<lparr>requests := requests w @ [u]\<rparr>"
  show ?case
  proof (cases "outcome_of (net env (requests w) u)")
    case (Inr body)
    with am show ?thesis
      by (subst retry_from.simps) (simp add: fetch_attempt_outcome)
  next
    case (Inl err)
    let ?w1 = "if a < m then sleep_ms (d * 2 ^ nat a) ?q else ?q"
    have err: "err \<noteq> ThrownUndefined" using Inl outcome_of_defined by metis
    have step: "retry_from (fetch_attempt env u) sleep_ms m d a e w
                = retry_from (fetch_attempt env u) sleep_ms m d (a + 1) err ?w1"
      using am Inl by (subst retry_from.simps) (simp add: fetch_attempt_outcome)
    have "n = nat (m + 1 - (a + 1))" using Suc.hyps(2) by simp
    from Suc.hyps(1) [OF this, of err ?w1] err show ?thesis unfolding step by simp
  qed
qed

lemma downloadFont_defined:
  "0 \<le> maxRetries os \<Longrightarrow> fst (downloadFont env u os w) \<noteq> Inl ThrownUndefined"
  unfolding downloadFont_def retryWithBackoff_def by (rule retry_fetch_defined) simp

lemma retry_fetch_never:
  assumes "never_delivered env u"
  shows "isl (fst (retry_from (fetch_attempt env u) sleep_ms m d a e w))"
proof (induction "nat (m + 1 - a)" arbitrary: a e w)
  case 0
  then have "\<not> a \<le> m" by simp
  then show ?case by (subst retry_from.simps) simp
next
  case (Suc n)
  then have am: "a \<le> m" by simp
  let ?q = "w\<lparr>requests := requests w @ [u]\<rparr>"
  let ?w1 = "if a < m then sleep_ms (d * 2 ^ nat a) ?q else ?q"
  from assms obtain err where err: "outcome_of (net env (requests w) u) = Inl err"
    unfolding never_delivered_def by (metis isl_def)
  have step: "retry_from (fetch_attempt env u) sleep_ms m d a e w
              = retry_from (fetch_attempt env u) sleep_ms m d (a + 1) err ?w1"
    using am err by (subst retry_from.simps) (simp add: fetch_attempt_outcome)
  have "n = nat (m + 1 - (a + 1))" using Suc.hyps(2) by simp
  from Suc.hyps(1) [OF this, of err ?w1] show ?case unfolding step .
qed

lemma downloadFont_never:
  "never_delivered env u \<Longrightarrow> isl (fst (downloadFont env u os w))"
  unfolding downloadFont_def retryWithBackoff_def by (rule retry_fetch_never)

lemma downloadFont_always:
  assumes "0 \<le> maxRetries os" and "always_delivered env u"
  shows "\<exists>body. downloadFont env u os w = (Inr body, w\<lparr>requests := requests w @ [u]\<rparr>)"
proof -
  from assms(2) obtain body where "outcome_of (net env (requests w) u) = Inr body"
    unfolding always_delivered_def by (metis isl_def sum.collapse(2))
  from downloadFont_first_try [OF assms(1) this] show ?thesis ..
qed

lemma writeFile_Inl:
  assumes "writeFile env n c w = (Inl e, w')" and "fonts_dir w \<noteq> None"
  shows "e \<noteq> ThrownUndefined" and "n \<in> {[], ''.'', ''..''} \<or> fs_fails env (WriteFile n)"
  using assms by (auto simp: writeFile_def split: option.splits if_splits)

lemma writeFile_Inr_call:
  assumes "writeFile env n c w = (Inr u, w')"
  shows "\<not> fs_fails env (WriteFile n)"
  using assms by (auto simp: writeFile_def split: option.splits if_splits)

lemma format_succeeds_iff:
  "format_succeeds env url \<longleftrightarrow>
     (\<exists>s. url = Some (JStr s) \<and> s \<noteq> [] \<and> always_delivered env (JStr s) \<and> can_store env s)"
  by (auto simp: format_succeeds_def split: option.splits json.splits)

text \<open>
  With at least one attempt allowed, a format never throws, and its result agrees with
  what the environment decides.
\<close>

lemma download_format_result:
  assumes mr: "0 \<le> maxRetries os" and d: "fonts_dir w \<noteq> None"
  shows "\<exists>p w'. download_format env os ev url w = (Inr p, w') \<and> format_result env url p"
proof -
  obtain r w' where run: "download_format env os ev url w = (r, w')"
    by (cases "download_format env os ev url w")
  from run have "\<exists>p. r = Inr p \<and> format_result env url p"
  proof (cases rule: download_format_cases)
    case untried
    then have "\<not> format_succeeds env url"
      by (auto simp: format_succeeds_iff)
    with untried(2) show ?thesis by (simp add: format_result_def)
  next
    case (fetch_failed u e w1)
    have "e \<noteq> ThrownUndefined"
      using downloadFont_defined [OF mr, of env u w] fetch_failed(3) by auto
    with fetch_failed(4) have r: "r = Inr None" by (simp add: catch_format_logs)
    have "\<not> always_delivered env u"
      using downloadFont_always [OF mr, of env u w] fetch_failed(3) by auto
    then have "\<not> format_succeeds env url"
      using fetch_failed(1) by (auto simp: format_succeeds_iff)
    with r show ?thesis by (simp add: format_result_def)
  next
    case (not_a_string u buffer w1)
    from not_a_string(5) have r: "r = Inr None" by (simp add: catch_format_logs)
    have "\<not> format_succeeds env url"
      using not_a_string(1,3) by (auto simp: format_succeeds_iff)
    with r show ?thesis by (simp add: format_result_def)
  next
    case (write_failed s buffer w1 e w2)
    have d1: "fonts_dir w1 \<noteq> None" using downloadFont_frame [OF write_failed(3)] d by simp
    note wi = writeFile_Inl [OF write_failed(4) d1]
    from write_failed(5) wi(1) have r: "r = Inr None" by (simp add: catch_format_logs)
    have "\<not> format_succeeds env url"
      using write_failed(1) wi(2) by (auto simp: format_succeeds_iff can_store_def)
    with r show ?thesis by (simp add: format_result_def)
  next
    case (stored s buffer w1)
    have "\<not> never_delivered env (JStr s)"
      using downloadFont_never [of env "JStr s" os w] stored(3) by auto
    moreover have "can_store env s"
      using writeFile_Inr(8) [OF stored(4)] writeFile_Inr_call [OF stored(4)]
      by (simp add: can_store_def)
    ultimately have "\<not> format_fails env url"
      using stored(1,2) by (simp add: format_fails_def)
    then show ?thesis using stored(1,5) by (simp add: format_result_def format_path_of_def)
  qed
  with run show ?thesis by blast
qed

lemma process_font_result:
  assumes mr: "0 \<le> maxRetries os" and d: "fonts_dir w \<noteq> None"
  shows "\<exists>r w'. process_font env os f w = (Inr r, w') \<and> font_result env f r
           \<and> (r = None \<longrightarrow> SkippingFont (prop_of f ''name'') \<in> set (console w'))"
proof -
  let ?n = "prop_of f ''name''"
  from download_format_result [OF mr d, of env "FailedWoff ?n" "prop_of f ''url1''"]
  obtain p1 w1 where
    a: "download_format env os (FailedWoff ?n) (prop_of f ''url1'') w = (Inr p1, w1)"
    and r1: "format_result env (prop_of f ''url1'') p1"
    by blast
  have d1: "fonts_dir w1 \<noteq> None" using download_format_frame [OF a d] by simp
  from download_format_result [OF mr d1, of env "FailedWoff2 ?n" "prop_of f ''url2''"]
  obtain p2 w2 where
    b: "download_format env os (FailedWoff2 ?n) (prop_of f ''url2'') w1 = (Inr p2, w2)"
    and r2: "format_result env (prop_of f ''url2'') p2"
    by blast
  show ?thesis
  proof (cases "p1 \<noteq> None \<or> p2 \<noteq> None")
    case True
    then have "process_font env os f w = (Inr (Some \<lparr>name = ?n, woff = p1, woff2 = p2\<rparr>), w2)"
      by (auto simp: process_font_def Let_def a b)
    moreover have "font_result env f (Some \<lparr>name = ?n, woff = p1, woff2 = p2\<rparr>)"
      using True r1 r2 by (simp add: font_result_def)
    ultimately show ?thesis by simp
  next
    case False
    then have "process_font env os f w
               = (Inr None, w2\<lparr>console := console w2 @ [SkippingFont ?n]\<rparr>)"
      by (auto simp: process_font_def Let_def a b)
    moreover have "font_result env f None"
      using False r1 r2 by (simp add: font_result_def format_result_def)
    ultimately show ?thesis by simp
  qed
qed

lemma download_loop_result:
  assumes mr: "0 \<le> maxRetries os"
  shows "fonts_dir w \<noteq> None \<Longrightarrow>
         \<exists>rs w'. download_loop env os fl acc w = (Inr (acc @ List.map_filter id rs), w')
           \<and> list_all2 (font_result env) fl rs
           \<and> (\<forall>i<length fl. rs ! i = None \<longrightarrow>
                 SkippingFont (prop_of (fl ! i) ''name'') \<in> set (console w'))"
proof (induction fl arbitrary: acc w)
  case Nil
  have "download_loop env os [] acc w = (Inr (acc @ List.map_filter id []), w)"
    by (simp add: List.map_filter_simps)
  then show ?case by (intro exI [of _ "[]"] exI [of _ w]) simp
next
  case (Cons font rest)
  from process_font_result [OF mr Cons.prems, of env font]
  obtain r w1 where p: "process_font env os font w = (Inr r, w1)"
    and fr: "font_result env font r"
    and lg: "r = None \<longrightarrow> SkippingFont (prop_of font ''name'') \<in> set (console w1)"
    by blast
  define acc1 where "acc1 = (case r of Some e \<Rightarrow> acc @ [e] | None \<Rightarrow> acc)"
  define w2 where "w2 = (if rest \<noteq> [] then sleep_ms 100 w1 else w1)"
  have run: "download_loop env os (font # rest) acc w = download_loop env os rest acc1 w2"
    by (simp only: download_loop_step [OF p] acc1_def w2_def)
  have d1: "fonts_dir w1 \<noteq> None" using process_font_frame [OF p Cons.prems] by simp
  have d2: "fonts_dir w2 \<noteq> None" and c2: "console w2 = console w1"
    using d1 by (simp_all add: w2_def sleep_ms_def)
  from Cons.IH [OF d2, of acc1]
  obtain rs w' where l: "download_loop env os rest acc1 w2 = (Inr (acc1 @ List.map_filter id rs), w')"
    and rs: "list_all2 (font_result env) rest rs"
    and logs: "\<forall>i<length rest. rs ! i = None \<longrightarrow>
                 SkippingFont (prop_of (rest ! i) ''name'') \<in> set (console w')"
    by blast
  have mono: "set (console w1) \<subseteq> set (console w')"
    using download_loop_frame [OF l d2] c2 by simp
  have data: "acc1 @ List.map_filter id rs = acc @ List.map_filter id (r # rs)"
    by (cases r) (simp_all add: acc1_def List.map_filter_simps)
  have all: "list_all2 (font_result env) (font # rest) (r # rs)" using fr rs by simp
  have "(r # rs) ! i = None \<longrightarrow>
          SkippingFont (prop_of ((font # rest) ! i) ''name'') \<in> set (console w')"
    if "i < length (font # rest)" for i
  proof (cases i)
    case 0
    with lg mono show ?thesis by auto
  next
    case (Suc j)
    with that logs show ?thesis by simp
  qed
  then have "\<forall>i<length (font # rest). (r # rs) ! i = None \<longrightarrow>
          SkippingFont (prop_of ((font # rest) ! i) ''name'') \<in> set (console w')"
    by blast
  with all show ?case unfolding run l data by blast
qed

lemma ensure_fonts_dir_cases:
  obtains (created)
      "ensure_fonts_dir env w
       = Inr (case fonts_dir w of None \<Rightarrow> w\<lparr>fonts_dir := Some []\<rparr> | Some files \<Rightarrow> w)"
  | (thrown) "ensure_fonts_dir env w = Inl (FsError MkdirFonts)" "fs_fails env MkdirFonts"
  by (cases "fonts_dir w"; cases "fs_fails env MkdirFonts") (simp_all add: ensure_fonts_dir_def)

lemma loadFontCacheState_cases:
  obtains (loaded) w' where "loadFontCacheState env w = (Inr (cached_state w), w')"
      "astro w' \<noteq> None"
  | (thrown) "loadFontCacheState env w = (Inl (FsError MkdirAstro), w)" "fs_fails env MkdirAstro"
proof (cases "astro w")
  case None
  then show ?thesis using that
    by (cases "fs_fails env MkdirAstro")
      (simp_all add: loadFontCacheState_def getFontCacheStatePath_def cached_state_def)
next
  case (Some sf)
  then show ?thesis using that(1)
    by (cases sf)
      (simp_all add: loadFontCacheState_def getFontCacheStatePath_def cached_state_def)
qed

lemma saveFontCacheState_succeeds:
  assumes "astro w \<noteq> None" "\<not> fs_fails env WriteState"
  shows "\<exists>w'. saveFontCacheState env st w = (Inr (), w') \<and> astro w' = Some (Manifest st)
              \<and> fonts_dir w' = fonts_dir w \<and> console w' = console w"
  using assms
  by (cases "astro w") (simp_all add: saveFontCacheState_def getFontCacheStatePath_def)


text \<open>
  The download path: it throws only when listing or deleting the old files throws, before
  any request; else every font is processed and the metadata and the state are written.
\<close>

lemma download_fresh_result:
  assumes mr: "0 \<le> maxRetries os" and c3: "\<not> fs_fails env (WriteFile ''fonts.json'')"
    and c5: "\<not> fs_fails env WriteState" and d: "fonts_dir w \<noteq> None" and a: "astro w \<noteq> None"
  shows "\<exists>r w'. download_fresh env os fl w = (r, w')
         \<and> (case r of
              Inl e \<Rightarrow> (\<exists>c. e = FsError c \<and> fs_fails env c) \<and> requests w' = requests w
            | Inr data \<Rightarrow>
                (\<exists>rs. data = List.map_filter id rs
                   \<and> list_all2 (font_result env) fl rs
                   \<and> (\<forall>i<length fl. rs ! i = None \<longrightarrow>
                         SkippingFont (prop_of (fl ! i) ''name'') \<in> set (console w'))
                   \<and> allFilesExist w' data
                   \<and> map_of (the (fonts_dir w')) ''fonts.json'' = Some (FontsJson data)
                   \<and> astro w' = Some (Manifest \<lparr>lastSync = Some (now env),
                        configHash = Some (generateFontConfigHash (sha256 env) fl),
                        fonts = data, version = ''1.0.0''\<rparr>)))"
proof -
  obtain x1 w1 where c: "clean_old_fonts env w = (x1, w1)" by (cases "clean_old_fonts env w")
  note cf = clean_old_fonts_frame [OF c d]
  show ?thesis
  proof (cases x1)
    case (Inl e)
    then have "download_fresh env os fl w = (Inl e, w1)" by (simp add: download_fresh_def c)
    with cf Inl show ?thesis by auto
  next
    case (Inr u)
    have d1: "fonts_dir w1 \<noteq> None" and a1: "astro w1 \<noteq> None" using cf a by simp_all
    from download_loop_result [OF mr d1, of env fl "[]"]
    obtain rs w2 where l: "download_loop env os fl [] w1 = (Inr (List.map_filter id rs), w2)"
      and rs: "list_all2 (font_result env) fl rs"
      and logs: "\<forall>i<length fl. rs ! i = None \<longrightarrow>
                   SkippingFont (prop_of (fl ! i) ''name'') \<in> set (console w2)"
      by auto
    let ?fd = "List.map_filter id rs"
    have d2: "fonts_dir w2 \<noteq> None" and a2: "astro w2 \<noteq> None"
      and e2: "allFilesExist w2 ?fd"
      using download_loop_frame [OF l d1] a1 by (simp_all add: allFilesExist_def)
    from writeFile_succeeds [OF d2 _ c3, of "FontsJson ?fd"]
    obtain w3 where wr: "writeFile env ''fonts.json'' (FontsJson ?fd) w2 = (Inr (), w3)"
      by auto
    note wf = writeFile_Inr [OF wr]
    let ?st = "\<lparr>lastSync = Some (now env),
              configHash = Some (generateFontConfigHash (sha256 env) fl),
              fonts = ?fd, version = ''1.0.0''\<rparr>"
    have a3: "astro w3 \<noteq> None" using wf(4) a2 by simp
    from saveFontCacheState_succeeds [OF a3 c5, of ?st]
    obtain w4 where sv: "saveFontCacheState env ?st w3 = (Inr (), w4)"
      and a4: "astro w4 = Some (Manifest ?st)" and f4: "fonts_dir w4 = fonts_dir w3"
      and c4: "console w4 = console w3"
      by blast
    have run: "download_fresh env os fl w = (Inr ?fd, w4)"
      by (simp add: download_fresh_def c Inr l wr sv)
    have "map_of (the (fonts_dir w4)) ''fonts.json'' = Some (FontsJson ?fd)"
      using wf(9) f4 by simp
    moreover have "\<forall>i<length fl. rs ! i = None \<longrightarrow>
                   SkippingFont (prop_of (fl ! i) ''name'') \<in> set (console w4)"
      using logs c4 wf(5) by simp
    moreover have "allFilesExist w3 ?fd"
      by (rule allFilesExist_mono [OF d2 wf(2) _ e2]) (use wf(3) in auto)
    then have "allFilesExist w4 ?fd" by (simp only: allFilesExist_cong [OF f4])
    ultimately show ?thesis unfolding run using a4 rs by auto
  qed
qed

lemma font_fails_skipped:
  assumes "list_all2 (font_result env) fl rs" and "i < length fl" and "font_fails env (fl ! i)"
  shows "rs ! i = None"
proof (cases "rs ! i")
  case None
  then show ?thesis .
next
  case (Some e)
  from assms(1,2) have "font_result env (fl ! i) (rs ! i)" by (simp add: list_all2_nthD)
  with Some assms(3) show ?thesis
    by (auto simp: font_result_def format_result_def font_fails_def)
qed

lemma downloadFontsWithCache_result:
  assumes mr: "0 \<le> maxRetries (merge_options os)"
    and c3: "\<not> fs_fails env (WriteFile ''fonts.json'')" and c5: "\<not> fs_fails env WriteState"
  shows "\<exists>r w'. downloadFontsWithCache env fl os w = (r, w')
         \<and> (case r of
              Inl e \<Rightarrow> (\<exists>c. e = FsError c \<and> fs_fails env c) \<and> requests w' = requests w
            | Inr data \<Rightarrow>
                if answered_from_cache env fl w
                then data = fonts (cached_state w) \<and> requests w' = requests w
                else (\<exists>rs. data = List.map_filter id rs
                       \<and> list_all2 (font_result env) fl rs
                       \<and> (\<forall>i<length fl. font_fails env (fl ! i) \<longrightarrow> rs ! i = None)
                       \<and> (\<forall>i<length fl. rs ! i = None \<longrightarrow>
                             SkippingFont (prop_of (fl ! i) ''name'') \<in> set (console w'))
                       \<and> allFilesExist w' data
                       \<and> map_of (the (fonts_dir w')) ''fonts.json'' = Some (FontsJson data)
                       \<and> astro w' = Some (Manifest \<lparr>lastSync = Some (now env),
                            configHash = Some (generateFontConfigHash (sha256 env) fl),
                            fonts = data, version = ''1.0.0''\<rparr>)))"
proof (cases env w rule: ensure_fonts_dir_cases)
  case thrown
  then have "downloadFontsWithCache env fl os w = (Inl (FsError MkdirFonts), w)"
    by (simp add: downloadFontsWithCache_def Let_def)
  with thrown(2) show ?thesis by auto
next
  case created
  define wa where "wa = (case fonts_dir w of None \<Rightarrow> w\<lparr>fonts_dir := Some []\<rparr> | Some files \<Rightarrow> w)"
  have en: "ensure_fonts_dir env w = Inr wa" unfolding wa_def by (rule created)
  have da: "fonts_dir wa \<noteq> None" and aa: "astro wa = astro w" and ra: "requests wa = requests w"
    by (simp_all add: wa_def split: option.splits)
  have cs: "cached_state wa = cached_state w" by (simp add: cached_state_def aa)
  let ?cs = "cached_state w"
  show ?thesis
  proof (cases env wa rule: loadFontCacheState_cases)
    case thrown
    then have "downloadFontsWithCache env fl os w = (Inl (FsError MkdirAstro), wa)"
      by (simp add: downloadFontsWithCache_def Let_def en)
    with thrown(2) ra show ?thesis by auto
  next
    case (loaded wb)
    then have ld: "loadFontCacheState env wa = (Inr ?cs, wb)" and ab: "astro wb \<noteq> None"
      unfolding cs by simp_all
    note lf = loadFontCacheState_frame [OF ld]
    have db: "fonts_dir wb \<noteq> None" using lf da by simp
    have ex: "allFilesExist wb es = allFilesExist wa es" for es
      by (rule allFilesExist_cong) (use lf in simp)
    show ?thesis
    proof (cases "answered_from_cache env fl w")
      case True
      then have g: "\<not> hasFontConfigChanged (sha256 env) fl ?cs" "fonts ?cs \<noteq> []"
        "allFilesExist wb (fonts ?cs)"
        unfolding ex by (simp_all add: answered_from_cache_def wa_def)
      from writeFile_succeeds [OF db _ c3, of "FontsJson (fonts ?cs)"]
      obtain wc where wr: "writeFile env ''fonts.json'' (FontsJson (fonts ?cs)) wb = (Inr (), wc)"
        by auto
      have "downloadFontsWithCache env fl os w = (Inr (fonts ?cs), wc)"
        using g by (simp add: downloadFontsWithCache_def Let_def en ld wr)
      moreover have "requests wc = requests w" using writeFile_Inr(6) [OF wr] lf ra by simp
      ultimately show ?thesis using True by simp
    next
      case False
      then have g: "hasFontConfigChanged (sha256 env) fl ?cs \<or> fonts ?cs = []
                    \<or> \<not> allFilesExist wb (fonts ?cs)"
        unfolding ex by (auto simp: answered_from_cache_def wa_def)
      define wd where "wd = (if \<not> hasFontConfigChanged (sha256 env) fl ?cs \<and> fonts ?cs \<noteq> []
                             then wb\<lparr>console := console wb @ [MissingCachedFonts]\<rparr> else wb)"
      have dd: "fonts_dir wd \<noteq> None" and ad: "astro wd \<noteq> None"
        and rd: "requests wd = requests w"
        using db ab lf ra by (simp_all add: wd_def)
      have run: "downloadFontsWithCache env fl os w = download_fresh env (merge_options os) fl wd"
        using g by (auto simp: downloadFontsWithCache_def Let_def en ld wd_def)
      from download_fresh_result [OF mr c3 c5 dd ad, of fl]
      obtain r w' where fr: "download_fresh env (merge_options os) fl wd = (r, w')"
        and res: "case r of
              Inl e \<Rightarrow> (\<exists>c. e = FsError c \<and> fs_fails env c) \<and> requests w' = requests wd
            | Inr data \<Rightarrow>
                (\<exists>rs. data = List.map_filter id rs
                   \<and> list_all2 (font_result env) fl rs
                   \<and> (\<forall>i<length fl. rs ! i = None \<longrightarrow>
                         SkippingFont (prop_of (fl ! i) ''name'') \<in> set (console w'))
                   \<and> allFilesExist w' data
                   \<and> map_of (the (fonts_dir w')) ''fonts.json'' = Some (FontsJson data)
                   \<and> astro w' = Some (Manifest \<lparr>lastSync = Some (now env),
                        configHash = Some (generateFontConfigHash (sha256 env) fl),
                        fonts = data, version = ''1.0.0''\<rparr>))"
        by blast
      show ?thesis
      proof (cases r)
        case (Inl e)
        with res run fr rd show ?thesis by auto
      next
        case (Inr data)
        with res obtain rs where rs: "list_all2 (font_result env) fl rs"
          and rest: "data = List.map_filter id rs"
            "\<forall>i<length fl. rs ! i = None \<longrightarrow>
               SkippingFont (prop_of (fl ! i) ''name'') \<in> set (console w')"
            "allFilesExist w' data"
            "map_of (the (fonts_dir w')) ''fonts.json'' = Some (FontsJson data)"
            "astro w' = Some (Manifest \<lparr>lastSync = Some (now env),
                  configHash = Some (generateFontConfigHash (sha256 env) fl),
                  fonts = data, version = ''1.0.0''\<rparr>)"
          by auto
        have "\<forall>i<length fl. font_fails env (fl ! i) \<longrightarrow> rs ! i = None"
          using font_fails_skipped [OF rs] by blast
        with run fr Inr rs rest False show ?thesis by auto
      qed
    qed
  qed
qed

text \<open>The example build of three fonts: what the environment decides about each of them.\<close>

lemma three_fonts_results:
  assumes env: "net env = net partial_env" "\<forall>n. \<not> fs_fails env (WriteFile n)"
    and "list_all2 (font_result env) three_fonts rs"
  shows "rs = [Some inter_entry, None, Some mono_entry]"
proof -
  let ?inter = "JStr ''https://cms.example/media/inter.woff''"
  let ?mono = "JStr ''https://cms.example/media/mono.woff2''"
  have net: "net env = (\<lambda>h u. if u = ?inter \<or> u = ?mono
                                then Response 200 ''wOFF'' else Rejected ''ECONNRESET'')"
    unfolding env(1) by (simp add: partial_env_def quiet_env_def)
  have ok1: "format_succeeds env (Some ?inter)"
    and ok3: "format_succeeds env (Some ?mono)"
    using env(2)
    by (simp_all add: format_succeeds_def always_delivered_def can_store_def net
        outcome_of_def basename_def)
  have no: "format_fails env None"
    and no2: "font_fails env
      [(''name'', JStr ''Broken''), (''url1'', JStr ''https://cms.example/media/broken.woff''),
       (''url2'', JStr ''https://cms.example/media/broken.woff2'')]"
    by (simp_all add: font_fails_def format_fails_def never_delivered_def net outcome_of_def
        prop_of_def)
  have p1: "format_path_of (Some ?inter) = Some ''/fonts/inter.woff''"
    and p3: "format_path_of (Some ?mono) = Some ''/fonts/mono.woff2''"
    by (simp_all add: format_path_of_def basename_def)
  from assms(3) obtain r1 r2 r3 where rs: "rs = [r1, r2, r3]"
    and f1: "font_result env
               [(''name'', JStr ''Inter''), (''url1'', ?inter)] r1"
    and f2: "font_result env
               [(''name'', JStr ''Broken''), (''url1'', JStr ''https://cms.example/media/broken.woff''),
                (''url2'', JStr ''https://cms.example/media/broken.woff2'')] r2"
    and f3: "font_result env [(''url2'', ?mono), (''name'', JStr ''Mono'')] r3"
    by (auto simp: three_fonts_def list_all2_Cons1)
  have "r1 = Some inter_entry"
  proof (cases r1)
    case None
    with f1 ok1 show ?thesis by (simp add: font_result_def prop_of_def)
  next
    case (Some e)
    with f1 ok1 no p1 have "name e = Some (JStr ''Inter'')" "woff e = Some ''/fonts/inter.woff''"
      "woff2 e = None"
      by (auto simp: font_result_def format_result_def prop_of_def)
    then show ?thesis using Some by (simp add: inter_entry_def)
  qed
  moreover have "r2 = None"
  proof (cases r2)
    case None
    then show ?thesis .
  next
    case (Some e)
    with f2 no2 show ?thesis
      by (auto simp: font_result_def format_result_def font_fails_def)
  qed
  moreover have "r3 = Some mono_entry"
  proof (cases r3)
    case None
    with f3 ok3 show ?thesis by (simp add: font_result_def prop_of_def)
  next
    case (Some e)
    with f3 ok3 no p3 have "name e = Some (JStr ''Mono'')" "woff e = None"
      "woff2 e = Some ''/fonts/mono.woff2''"
      by (auto simp: font_result_def format_result_def prop_of_def)
    then show ?thesis using Some by (simp add: mono_entry_def)
  qed
  ultimately show ?thesis using rs by simp
qed

lemma partial_env_facts:
  "0 \<le> maxRetries (merge_options no_options)" "\<not> fs_fails partial_env c"
  "\<not> answered_from_cache partial_env fl empty_world"
  "\<forall>n. \<not> fs_fails partial_env (WriteFile n)"
  by (simp_all add: merge_options_def no_options_def partial_env_def
      quiet_env_def answered_from_cache_def cached_state_def empty_world_def fresh_state_def)

lemma three_fonts_run:
  "\<exists>w'. downloadFontsWithCache partial_env three_fonts no_options empty_world
         = (Inr [inter_entry, mono_entry], w')"
proof -
  from downloadFontsWithCache_result [OF partial_env_facts(1,2,2), of three_fonts empty_world]
  obtain r w' where
    run: "downloadFontsWithCache partial_env three_fonts no_options empty_world = (r, w')"
    and res: "case r of
        Inl e \<Rightarrow> (\<exists>c. e = FsError c \<and> fs_fails partial_env c)
                 \<and> requests w' = requests empty_world
      | Inr data \<Rightarrow>
          if answered_from_cache partial_env three_fonts empty_world
          then data = fonts (cached_state empty_world) \<and> requests w' = requests empty_world
          else (\<exists>rs. data = List.map_filter id rs
                 \<and> list_all2 (font_result partial_env) three_fonts rs
                 \<and> (\<forall>i<length three_fonts. font_fails partial_env (three_fonts ! i)
                       \<longrightarrow> rs ! i = None)
                 \<and> (\<forall>i<length three_fonts. rs ! i = None \<longrightarrow>
                       SkippingFont (prop_of (three_fonts ! i) ''name'') \<in> set (console w'))
                 \<and> allFilesExist w' data
                 \<and> map_of (the (fonts_dir w')) ''fonts.json'' = Some (FontsJson data)
                 \<and> astro w' = Some (Manifest \<lparr>lastSync = Some (now partial_env),
                      configHash = Some (generateFontConfigHash (sha256 partial_env) three_fonts),
                      fonts = data, version = ''1.0.0''\<rparr>))"
    by blast
  from res partial_env_facts(2,3) obtain data rs where r: "r = Inr data"
    and data: "data = List.map_filter id rs"
    and rs: "list_all2 (font_result partial_env) three_fonts rs"
    by (cases r) auto
  have "data = [inter_entry, mono_entry]"
    unfolding data three_fonts_results [OF refl partial_env_facts(4) rs]
    by (simp add: List.map_filter_simps)
  with run r show ?thesis by simp
qed







text \<open>
  Claim C9, as the code has it. After a run of \<^verbatim>\<open>downloadFontsWithCache\<close> that returned at
  least one font and whose state file could be written, the saved \<^verbatim>\<open>configHash\<close> is the
  fingerprint of the whole requested configuration, failed fonts included, and the saved
  list is the returned one, which omits the fonts that failed. A later call with the same
  fonts (same digest, \<^verbatim>\<open>fonts.json\<close> writable, whatever the network and the options) is a
  cache hit: it returns the same list and sends no request, so the fonts that failed are
  not tried again.
\<close>

theorem failed_fonts_not_retried_after_partial_success:
  assumes "downloadFontsWithCache env fl os w = (Inr data, w1)"
    and "data \<noteq> []"
    and "\<not> fs_fails env WriteState"
    and "sha256 env2 = sha256 env"
    and "\<not> fs_fails env2 (WriteFile ''fonts.json'')"
  shows "configHash (cached_state w1) = Some (generateFontConfigHash (sha256 env) fl)
         \<and> fonts (cached_state w1) = data
         \<and> cache_hit env2 fl w1
         \<and> fst (downloadFontsWithCache env2 fl os2 w1) = Inr data
         \<and> requests (snd (downloadFontsWithCache env2 fl os2 w1)) = requests w1
         \<and> astro (snd (downloadFontsWithCache env2 fl os2 w1)) = astro w1"
proof -
  note r = run_leaves_cache [OF assms(1,3)]
  have hit: "cache_hit env2 fl w1"
    using r assms(2,4)
    by (simp add: cache_hit_def hasFontConfigChanged_def generateFontConfigHash_not_Nil)
  from cache_hit_run [OF hit assms(5), of os2] r hit show ?thesis by simp
qed

theorem failed_fonts_not_retried_after_partial_success_witness:
  "fst (downloadFontsWithCache partial_env three_fonts no_options empty_world)
     = Inr [inter_entry, mono_entry]
   \<and> fst (downloadFontsWithCache quiet_env three_fonts no_options
        (snd (downloadFontsWithCache partial_env three_fonts no_options empty_world)))
     = Inr [inter_entry, mono_entry]
   \<and> requests (snd (downloadFontsWithCache quiet_env three_fonts no_options
        (snd (downloadFontsWithCache partial_env three_fonts no_options empty_world))))
     = requests (snd (downloadFontsWithCache partial_env three_fonts no_options empty_world))"
proof -
  from three_fonts_run obtain w1 where
    run: "downloadFontsWithCache partial_env three_fonts no_options empty_world
          = (Inr [inter_entry, mono_entry], w1)" ..
  have ne: "[inter_entry, mono_entry] \<noteq> []" by simp
  have ws: "\<not> fs_fails partial_env WriteState"
    and sh: "sha256 quiet_env = sha256 partial_env"
    and wj: "\<not> fs_fails quiet_env (WriteFile ''fonts.json'')"
    by (simp_all add: partial_env_def quiet_env_def)
  from failed_fonts_not_retried_after_partial_success [OF run ne ws sh wj, of no_options] run
  show ?thesis by simp
qed

lemma all_failed_run:
  "downloadFontsWithCache quiet_env broken_fonts no_options empty_world
   = (Inr [],
      \<lparr>requests = replicate 4 (JStr ''https://cms.example/media/broken.woff''),
       sleeps = [1000, 2000, 4000],
       console = [FailedWoff (Some (JStr ''Broken'')), SkippingFont (Some (JStr ''Broken''))],
       astro = Some (Manifest \<lparr>lastSync = Some ''2025-06-01T00:00:00.000Z'',
          configHash = Some (generateFontConfigHash (\<lambda>s. of_nat (length s)) broken_fonts),
          fonts = [], version = ''1.0.0''\<rparr>),
       fonts_dir = Some [(''fonts.json'', FontsJson [])]\<rparr>)"
proof -
  have ex: "downloadFont quiet_env (JStr ''https://cms.example/media/broken.woff'')
              (merge_options no_options) w
            = (Inl (FetchError ''ECONNRESET''),
               w\<lparr>requests := requests w @ replicate 4 (JStr ''https://cms.example/media/broken.woff''),
                 sleeps := sleeps w @ [1000, 2000, 4000]\<rparr>)" for w
    by (simp add: downloadFont_exhausted [where err = "FetchError ''ECONNRESET''"]
        quiet_env_def merge_options_def no_options_def outcome_of_def upt_rec numeral_eq_Suc)
  have pf: "process_font quiet_env (merge_options no_options)
              [(''name'', JStr ''Broken''), (''url1'', JStr ''https://cms.example/media/broken.woff'')] w
            = (Inr None, w\<lparr>requests := requests w @ replicate 4 (JStr ''https://cms.example/media/broken.woff''),
                 sleeps := sleeps w @ [1000, 2000, 4000],
                 console := console w @ [FailedWoff (Some (JStr ''Broken'')),
                                         SkippingFont (Some (JStr ''Broken''))]\<rparr>)" for w
    by (simp add: process_font_def download_format_def catch_format_def prop_of_def ex Let_def)
  have qe: "fs_fails quiet_env = (\<lambda>c. False)" "now quiet_env = ''2025-06-01T00:00:00.000Z''"
    "sha256 quiet_env = (\<lambda>s. of_nat (length s))"
    by (simp_all add: quiet_env_def)
  show ?thesis
    by (simp add: downloadFontsWithCache_def ensure_fonts_dir_def loadFontCacheState_def
        getFontCacheStatePath_def hasFontConfigChanged_def fresh_state_def download_fresh_def
        clean_old_fonts_def broken_fonts_def Let_def writeFile_def
        saveFontCacheState_def empty_world_def pf qe)
qed

lemma all_failed_rerun:
  "downloadFontsWithCache quiet_env broken_fonts no_options
     \<lparr>requests = replicate 4 (JStr ''https://cms.example/media/broken.woff''),
       sleeps = [1000, 2000, 4000],
       console = [FailedWoff (Some (JStr ''Broken'')), SkippingFont (Some (JStr ''Broken''))],
       astro = Some (Manifest \<lparr>lastSync = Some ''2025-06-01T00:00:00.000Z'',
          configHash = Some (generateFontConfigHash (\<lambda>s. of_nat (length s)) broken_fonts),
          fonts = [], version = ''1.0.0''\<rparr>),
       fonts_dir = Some [(''fonts.json'', FontsJson [])]\<rparr>
   = (Inr [],
      \<lparr>requests = replicate 8 (JStr ''https://cms.example/media/broken.woff''),
       sleeps = [1000, 2000, 4000, 1000, 2000, 4000],
       console = [FailedWoff (Some (JStr ''Broken'')), SkippingFont (Some (JStr ''Broken'')),
                  FailedWoff (Some (JStr ''Broken'')), SkippingFont (Some (JStr ''Broken''))],
       astro = Some (Manifest \<lparr>lastSync = Some ''2025-06-01T00:00:00.000Z'',
          configHash = Some (generateFontConfigHash (\<lambda>s. of_nat (length s)) broken_fonts),
          fonts = [], version = ''1.0.0''\<rparr>),
       fonts_dir = Some [(''fonts.json'', FontsJson [])]\<rparr>)"
proof -
  have ex: "downloadFont quiet_env (JStr ''https://cms.example/media/broken.woff'')
              (merge_options no_options) w
            = (Inl (FetchError ''ECONNRESET''),
               w\<lparr>requests := requests w @ replicate 4 (JStr ''https://cms.example/media/broken.woff''),
                 sleeps := sleeps w @ [1000, 2000, 4000]\<rparr>)" for w
    by (simp add: downloadFont_exhausted [where err = "FetchError ''ECONNRESET''"]
        quiet_env_def merge_options_def no_options_def outcome_of_def upt_rec numeral_eq_Suc)
  have pf: "process_font quiet_env (merge_options no_options)
              [(''name'', JStr ''Broken''), (''url1'', JStr ''https://cms.example/media/broken.woff'')] w
            = (Inr None, w\<lparr>requests := requests w @ replicate 4 (JStr ''https://cms.example/media/broken.woff''),
                 sleeps := sleeps w @ [1000, 2000, 4000],
                 console := console w @ [FailedWoff (Some (JStr ''Broken'')),
                                         SkippingFont (Some (JStr ''Broken''))]\<rparr>)" for w
    by (simp add: process_font_def download_format_def catch_format_def prop_of_def ex Let_def)
  have qe: "fs_fails quiet_env = (\<lambda>c. False)" "now quiet_env = ''2025-06-01T00:00:00.000Z''"
    "sha256 quiet_env = (\<lambda>s. of_nat (length s))"
    by (simp_all add: quiet_env_def)
  have h: "generateFontConfigHash (\<lambda>s. of_nat (length s))
     [[(''name'', JStr ''Broken''), (''url1'', JStr ''https://cms.example/media/broken.woff'')]] \<noteq> []"
    by (rule generateFontConfigHash_not_Nil)
  show ?thesis
    by (simp add: downloadFontsWithCache_def ensure_fonts_dir_def loadFontCacheState_def
        getFontCacheStatePath_def hasFontConfigChanged_def download_fresh_def
        clean_old_fonts_def broken_fonts_def Let_def writeFile_def
        saveFontCacheState_def pf qe h replicate_add [symmetric] del: replicate.simps)
qed

text \<open>
  Claim C9 as stated fails when every font failed: the saved list is empty, the guard
  \<^verbatim>\<open>cacheState.fonts.length > 0\<close> sends the next call with the same fonts down the download
  path, and the font that failed is requested four more times.
\<close>

theorem all_failed_fonts_are_retried:
  "fst (downloadFontsWithCache quiet_env broken_fonts no_options empty_world) = Inr []
   \<and> length (requests (snd (downloadFontsWithCache quiet_env broken_fonts no_options
        empty_world))) = 4
   \<and> length (requests (snd (downloadFontsWithCache quiet_env broken_fonts no_options
        (snd (downloadFontsWithCache quiet_env broken_fonts no_options empty_world))))) = 8"
  by (simp add: all_failed_run all_failed_rerun)

subsection \<open>The entry points without an origin\<close>

lemma restore_cache_requests: "requests (restore_cache env w) = requests w"
  by (auto simp: restore_cache_def Let_def loadFontCacheState_def getFontCacheStatePath_def
      split: option.splits state_file.splits)

text \<open>
  Claim C8, as the code has it. With \<^verbatim>\<open>KIRBY_URL\<close> unset or empty, neither hook sends a
  request. The Astro hook returns normally and changes neither directory. \<^verbatim>\<open>onPreBuild\<close>
  returns normally with the warning when \<^verbatim>\<open>./.astro\<close> exists or can be created: before it
  looks at \<^verbatim>\<open>KIRBY_URL\<close> it asks for the path of the state file, which creates the
  directory when that is missing.
\<close>

theorem missing_origin_skips_fonts:
  assumes "kirby_url env = None \<or> kirby_url env = Some []"
  shows "requests (snd (onPreBuild env w)) = requests w
         \<and> (astro w \<noteq> None \<or> \<not> fs_fails env MkdirAstro \<longrightarrow>
              fst (onPreBuild env w) = Inr ()
              \<and> KirbyUrlNotSet \<in> set (console (snd (onPreBuild env w))))
         \<and> fst (fontDownloader env userOptions w) = Inr ()
         \<and> requests (snd (fontDownloader env userOptions w)) = requests w
         \<and> fonts_dir (snd (fontDownloader env userOptions w)) = fonts_dir w
         \<and> astro (snd (fontDownloader env userOptions w)) = astro w"
  using assms
  by (auto simp: onPreBuild_def fontDownloader_def getFontCacheStatePath_def Let_def
      restore_cache_requests split: option.splits)

theorem missing_origin_skips_fonts_witness:
  "onPreBuild quiet_env cached_world
     = (Inr (), cached_world\<lparr>console := [KirbyUrlNotSet]\<rparr>)
   \<and> fontDownloader quiet_env no_options cached_world
     = (Inr (), cached_world\<lparr>console := [KirbyUrlNotSet]\<rparr>)"
  using missing_origin_skips_fonts [of quiet_env cached_world no_options]
  by (simp add: onPreBuild_def fontDownloader_def getFontCacheStatePath_def Let_def
      restore_cache_def loadFontCacheState_def quiet_env_def cached_world_def empty_world_def)

text \<open>
  Claim C8 as stated fails for \<^verbatim>\<open>onPreBuild\<close>: when \<^verbatim>\<open>./.astro\<close> is missing and cannot be
  created, the hook throws before it looks at \<^verbatim>\<open>KIRBY_URL\<close>.
\<close>

theorem missing_origin_hook_raises_without_directory:
  "kirby_url readonly_env = None
   \<and> fst (onPreBuild readonly_env empty_world) = Inl (FsError MkdirAstro)"
  by (simp add: onPreBuild_def getFontCacheStatePath_def readonly_env_def quiet_env_def
      empty_world_def)

subsection \<open>\<^verbatim>\<open>sanitizePath\<close>\<close>

lemma dots_first_snoc:
  "dots_first res \<Longrightarrow> seg \<noteq> ''..'' \<Longrightarrow> dots_first (res @ [seg])"
  by (auto simp: dots_first_def dropWhile_append)

lemma dots_first_all_dots:
  assumes "dots_first res" "res \<noteq> []" "last res = ''..''"
  shows "\<forall>s\<in>set res. s = ''..''"
proof (rule ccontr)
  assume "\<not> (\<forall>s\<in>set res. s = ''..'')"
  then have "dropWhile (\<lambda>s. s = ''..'') res \<noteq> []" by (simp add: dropWhile_eq_Nil_conv)
  then have "last (dropWhile (\<lambda>s. s = ''..'') res) = last res"
    by (metis last_appendR takeWhile_dropWhile_id)
  moreover have "last (dropWhile (\<lambda>s. s = ''..'') res) \<in> set (dropWhile (\<lambda>s. s = ''..'') res)"
    using \<open>dropWhile (\<lambda>s. s = ''..'') res \<noteq> []\<close> by (rule last_in_set)
  ultimately show False using assms by (simp add: dots_first_def)
qed

lemma dots_first_push_dots:
  assumes "dots_first res" "res = [] \<or> last res = ''..''"
  shows "dots_first (res @ [''..''])"
proof (cases "res = []")
  case True
  then show ?thesis by (simp add: dots_first_def)
next
  case False
  with assms have "\<forall>s\<in>set res. s = ''..''" by (auto intro: dots_first_all_dots [rule_format])
  then show ?thesis by (simp add: dots_first_def dropWhile_append)
qed

lemma dots_first_butlast:
  assumes "dots_first res"
  shows "dots_first (butlast res)"
proof (cases "res = []")
  case True
  then show ?thesis using assms by simp
next
  case False
  then have res: "res = butlast res @ [last res]" by simp
  show ?thesis
  proof (cases "\<forall>s\<in>set (butlast res). s = ''..''")
    case True
    then have "dropWhile (\<lambda>s. s = ''..'') (butlast res) = []" by (simp add: dropWhile_eq_Nil_conv)
    then show ?thesis unfolding dots_first_def by (simp only: list.set empty_iff not_False_eq_True)
  next
    case False
    then have "dropWhile (\<lambda>s. s = ''..'') (butlast res @ [last res])
               = dropWhile (\<lambda>s. s = ''..'') (butlast res) @ [last res]"
      by (auto simp: dropWhile_append)
    then have "set (dropWhile (\<lambda>s. s = ''..'') (butlast res))
               \<subseteq> set (dropWhile (\<lambda>s. s = ''..'') res)"
      using res by (metis Un_upper1 set_append)
    with assms show ?thesis unfolding dots_first_def by blast
  qed
qed

lemma normalize_segments_dots_first:
  "dots_first res \<Longrightarrow> dots_first (normalize_segments a segs res)"
proof (induction segs arbitrary: res)
  case Nil
  then show ?case by simp
next
  case (Cons seg segs)
  have b: "dots_first (normalize_segments a segs (butlast res))"
    by (rule Cons.IH [OF dots_first_butlast [OF Cons.prems]])
  have d: "res = [] \<or> last res = ''..'' \<Longrightarrow> dots_first (normalize_segments a segs (res @ [''..'']))"
    by (rule Cons.IH [OF dots_first_push_dots [OF Cons.prems]])
  have e: "seg \<noteq> ''..'' \<Longrightarrow> dots_first (normalize_segments a segs (res @ [seg]))"
    by (rule Cons.IH [OF dots_first_snoc [OF Cons.prems]])
  have k: "dots_first (normalize_segments a segs res)"
    by (rule Cons.IH [OF Cons.prems])
  show ?case using b d e k by (cases a) auto
qed

lemma normalize_segments_no_sep:
  "\<forall>s\<in>set res. CHR ''/'' \<notin> set s \<Longrightarrow> \<forall>s\<in>set segs. CHR ''/'' \<notin> set s
   \<Longrightarrow> \<forall>s\<in>set (normalize_segments a segs res). CHR ''/'' \<notin> set s"
proof (induction segs arbitrary: res)
  case Nil
  then show ?case by simp
next
  case (Cons seg segs)
  have b: "\<forall>s\<in>set (butlast res). CHR ''/'' \<notin> set s"
    using Cons.prems(1) by (auto dest: in_set_butlastD)
  have d: "\<forall>s\<in>set (res @ [''..'']). CHR ''/'' \<notin> set s" using Cons.prems(1) by auto
  have e: "\<forall>s\<in>set (res @ [seg]). CHR ''/'' \<notin> set s" using Cons.prems by auto
  have t: "\<forall>s\<in>set segs. CHR ''/'' \<notin> set s" using Cons.prems(2) by simp
  show ?case
    using Cons.IH [OF Cons.prems(1) t] Cons.IH [OF b t] Cons.IH [OF d t] Cons.IH [OF e t]
    by simp
qed

lemma split_on_no_sep: "\<forall>s\<in>set (split_on c p). c \<notin> set s"
  by (induction p) (auto split: list.splits)

lemma split_on_not_Nil: "split_on c p \<noteq> []"
  by (induction p) (auto split: list.splits)

lemma split_on_plain: "c \<notin> set x \<Longrightarrow> split_on c x = [x]"
  by (induction x) auto

lemma split_on_append_sep: "c \<notin> set x \<Longrightarrow> split_on c (x @ c # rest) = x # split_on c rest"
  by (induction x) (auto simp: split_on_not_Nil split: list.splits)

lemma split_on_join:
  "segs \<noteq> [] \<Longrightarrow> \<forall>s\<in>set segs. CHR ''/'' \<notin> set s
   \<Longrightarrow> split_on CHR ''/'' (join ''/'' segs) = segs"
proof (induction segs)
  case Nil
  then show ?case by simp
next
  case (Cons x xs)
  show ?case
  proof (cases xs)
    case Nil
    then show ?thesis using Cons.prems by (simp add: split_on_plain)
  next
    case (Cons y ys)
    then have "split_on CHR ''/'' (join ''/'' xs) = xs" using Cons.IH Cons.prems by simp
    then show ?thesis using Cons Cons.prems by (simp add: split_on_append_sep)
  qed
qed

lemma join_snoc: "segs \<noteq> [] \<Longrightarrow> join sep (segs @ [x]) = join sep segs @ sep @ x"
  by (induction sep segs rule: join.induct) auto

lemma dots_first_hd:
  assumes "dots_first xs" "''..'' \<in> set xs"
  shows "\<exists>ys. xs = ''..'' # ys"
proof (cases xs)
  case Nil
  with assms show ?thesis by simp
next
  case (Cons x ys)
  show ?thesis
  proof (cases "x = ''..''")
    case True
    with Cons show ?thesis by simp
  next
    case False
    with Cons assms show ?thesis by (simp add: dots_first_def)
  qed
qed

lemma join_dots_prefix:
  "join ''/'' (''..'' # ys) @ t = ''..'' \<or> join ''/'' (''..'' # ys) @ t = ''../''
   \<or> prefix ''../'' (join ''/'' (''..'' # ys) @ t) \<or> (ys = [] \<and> t \<noteq> [] \<and> t \<noteq> ''/'')"
  by (cases ys) auto

lemma sanitizePath_Inr:
  assumes "sanitizePath fieldName p = Inr r"
  shows "r = normalize_path p" and "\<not> isAbsolute r" and "r \<noteq> ''..''" and "\<not> prefix ''../'' r"
    and "\<not> str_includes r ''/../''" and "\<not> str_includes r [CHR ''.'', CHR ''.'', CHR 0x5C]"
    and "p \<noteq> []"
  using assms by (auto simp: sanitizePath_def Let_def split: if_splits)

lemma normalize_path_absolute: "isAbsolute p \<Longrightarrow> isAbsolute (normalize_path p)"
  by (auto simp: normalize_path_def Let_def isAbsolute_def)

lemma sanitizePath_no_parent_segment:
  assumes "sanitizePath fieldName p = Inr r"
  shows "''..'' \<notin> set (split_on CHR ''/'' r)"
proof -
  note f = sanitizePath_Inr [OF assms]
  have rel: "\<not> isAbsolute p" using f(1,2) normalize_path_absolute by auto
  define segs where "segs = normalize_segments True (split_on CHR ''/'' p) []"
  define t where "t = (if last p = CHR ''/'' then ''/'' else [])"
  have df: "dots_first segs" unfolding segs_def
    by (rule normalize_segments_dots_first) (simp add: dots_first_def)
  have ns: "\<forall>s\<in>set segs. CHR ''/'' \<notin> set s" unfolding segs_def
    by (rule normalize_segments_no_sep) (simp_all add: split_on_no_sep)
  show ?thesis
  proof (cases "join ''/'' segs = []")
    case True
    then have "r = ''./'' \<or> r = ''.''"
      using f(1,7) rel by (auto simp: normalize_path_def Let_def segs_def)
    then show ?thesis by auto
  next
    case False
    then have ne: "segs \<noteq> []" by auto
    have r: "r = join ''/'' segs @ t"
      using f(1,7) rel False by (simp add: normalize_path_def Let_def segs_def t_def)
    have sp: "split_on CHR ''/'' r = segs \<or> split_on CHR ''/'' r = segs @ [[]]"
    proof (cases "t = []")
      case True
      then show ?thesis using r split_on_join [OF ne ns] by simp
    next
      case False
      then have "t = ''/''" by (simp add: t_def split: if_splits)
      then have "r = join ''/'' (segs @ [[]])" using r ne by (simp add: join_snoc)
      moreover have "split_on CHR ''/'' (join ''/'' (segs @ [[]])) = segs @ [[]]"
        by (rule split_on_join) (use ns in auto)
      ultimately show ?thesis by simp
    qed
    show ?thesis
    proof
      assume "''..'' \<in> set (split_on CHR ''/'' r)"
      then have "''..'' \<in> set segs" using sp by auto
      then obtain ys where ys: "segs = ''..'' # ys" using dots_first_hd [OF df] by blast
      have "t = [] \<or> t = ''/''" by (simp add: t_def)
      then have "r = ''..'' \<or> prefix ''../'' r"
        using join_dots_prefix [of ys t] unfolding r ys by auto
      then show False using f(3,4) by auto
    qed
  qed
qed

text \<open>
  Claim C10. \<^verbatim>\<open>sanitizePath\<close> throws or returns the normalized path, and a returned path is
  relative, is not \<^verbatim>\<open>..\<close>, does not start with \<^verbatim>\<open>../\<close>, and contains neither \<^verbatim>\<open>/../\<close> nor
  \<^verbatim>\<open>..\<close> followed by a backslash. With Node's normalization it follows that no segment of
  a returned path is \<^verbatim>\<open>..\<close>: the path cannot leave the working directory.
\<close>

theorem sanitizePath_safe:
  "sanitizePath fieldName p = Inr r \<Longrightarrow>
     r = normalize_path p \<and> \<not> isAbsolute r \<and> r \<noteq> ''..'' \<and> \<not> prefix ''../'' r
     \<and> \<not> str_includes r ''/../'' \<and> \<not> str_includes r [CHR ''.'', CHR ''.'', CHR 0x5C]
     \<and> ''..'' \<notin> set (split_on CHR ''/'' r)"
  using sanitizePath_Inr [of fieldName p r] sanitizePath_no_parent_segment [of fieldName p r]
  by simp

theorem sanitizePath_safe_witness:
  "sanitizePath ''Path'' ''fonts/./old/../inter.woff2'' = Inr ''fonts/inter.woff2''
   \<and> \<not> isAbsolute ''fonts/inter.woff2''
   \<and> ''..'' \<notin> set (split_on CHR ''/'' ''fonts/inter.woff2'')"
proof -
  have h: "sanitizePath ''Path'' ''fonts/./old/../inter.woff2'' = Inr ''fonts/inter.woff2''"
    by (simp add: sanitizePath_def normalize_path_def isAbsolute_def Let_def)
  from sanitizePath_safe [OF h] h show ?thesis by blast
qed

end
